theory Spec2Isabelle
  imports Complex_Main
begin

section \<open>Dense matrices\<close>

text \<open>
  The solvers work on rank-two tensors. A tensor is modelled as the list of its rows, over
  the reals: the arithmetic of the model is exact, and the only places where a float leaves
  the reals (a division by zero gives an infinity or a NaN, and no exception) are written
  out with \<open>fdiv\<close> below. A matrix of the model has at least one row and one column
  (\<open>mat r c A\<close>), as the solvers' inputs have; the operations read the shape of their
  arguments as the tensor library does (\<open>nrows\<close>, \<open>ncols\<close>) and are meant for arguments of
  conforming shapes, where the library raises a shape error otherwise.
\<close>

type_synonym matrix = "real list list"

definition nrows :: "matrix \<Rightarrow> nat" where
  "nrows A = length A"

definition ncols :: "matrix \<Rightarrow> nat" where
  "ncols A = (case A of [] \<Rightarrow> 0 | r # _ \<Rightarrow> length r)"

definition ent :: "matrix \<Rightarrow> nat \<Rightarrow> nat \<Rightarrow> real" where
  "ent A i j = A ! i ! j"

definition mk :: "nat \<Rightarrow> nat \<Rightarrow> (nat \<Rightarrow> nat \<Rightarrow> real) \<Rightarrow> matrix" where
  "mk r c f = map (\<lambda>i. map (f i) [0..<c]) [0..<r]"

definition mat :: "nat \<Rightarrow> nat \<Rightarrow> matrix \<Rightarrow> bool" where
  "mat r c A \<longleftrightarrow> 0 < r \<and> 0 < c \<and> length A = r \<and> list_all (\<lambda>row. length row = c) A"

text \<open>\<open>lin.matmul\<close> and numpy's \<open>@\<close>.\<close>

definition matmul :: "matrix \<Rightarrow> matrix \<Rightarrow> matrix" where
  "matmul A B = mk (nrows A) (ncols B) (\<lambda>i j. \<Sum>k\<leftarrow>[0..<ncols A]. ent A i k * ent B k j)"

text \<open>\<open>tf.transpose\<close> and numpy's \<open>.T\<close>.\<close>

definition tf_transpose :: "matrix \<Rightarrow> matrix" where
  "tf_transpose A = mk (ncols A) (nrows A) (\<lambda>i j. ent A j i)"

text \<open>\<open>lin.trace\<close>.\<close>

definition trace :: "matrix \<Rightarrow> real" where
  "trace A = (\<Sum>i\<leftarrow>[0..<min (nrows A) (ncols A)]. ent A i i)"

text \<open>\<open>lin.eye\<close> and \<open>np.eye\<close>.\<close>

definition eye :: "nat \<Rightarrow> matrix" where
  "eye n = mk n n (\<lambda>i j. if i = j then 1 else 0)"

text \<open>The element-wise operators \<open>+\<close>, \<open>-\<close> and the product of a scalar with a tensor.\<close>

definition add :: "matrix \<Rightarrow> matrix \<Rightarrow> matrix" where
  "add A B = mk (nrows A) (ncols A) (\<lambda>i j. ent A i j + ent B i j)"

definition sub :: "matrix \<Rightarrow> matrix \<Rightarrow> matrix" where
  "sub A B = mk (nrows A) (ncols A) (\<lambda>i j. ent A i j - ent B i j)"

definition scale :: "real \<Rightarrow> matrix \<Rightarrow> matrix" where
  "scale c A = mk (nrows A) (ncols A) (\<lambda>i j. c * ent A i j)"

text \<open>\<open>tf.math.abs\<close>, and \<open>tf.math.subtract\<close> with a scalar second argument (broadcast).\<close>

definition tf_abs :: "matrix \<Rightarrow> matrix" where
  "tf_abs A = mk (nrows A) (ncols A) (\<lambda>i j. \<bar>ent A i j\<bar>)"

definition subtract :: "matrix \<Rightarrow> real \<Rightarrow> matrix" where
  "subtract A c = mk (nrows A) (ncols A) (\<lambda>i j. ent A i j - c)"

text \<open>\<open>tf.norm\<close> with \<open>ord='fro'\<close> over both axes, and \<open>tf.math.square\<close> of a scalar.\<close>

definition norm_fro :: "matrix \<Rightarrow> real" where
  "norm_fro A = sqrt (\<Sum>i\<leftarrow>[0..<nrows A]. \<Sum>j\<leftarrow>[0..<ncols A]. ent A i j * ent A i j)"

definition square :: "real \<Rightarrow> real" where
  "square x = x * x"

text \<open>
  The quotient of two floats. A zero divisor raises nothing: the result is an infinity or a
  NaN, which \<open>None\<close> stands for.
\<close>

definition fdiv :: "real \<Rightarrow> real \<Rightarrow> real option" where
  "fdiv x y = (if y = 0 then None else Some (x / y))"

section \<open>Outcomes of a solve\<close>

text \<open>
  \<open>InvalidArgumentError\<close> is what \<open>lin.inv\<close> raises on an input it finds not invertible,
  and a matrix of NaNs is such an input; \<open>UnboundLocalError\<close> is Python's error on reading
  the loop variable \<open>it\<close> after a loop that never ran. Nothing in the source catches an
  exception, so a raised error leaves the solve at once (\<open>Raised\<close>). A NaN raises nothing
  where it appears: the source goes on computing with it until it reaches \<open>lin.inv\<close>. The
  model follows the two NaNs that the solvers compute themselves, the regularisation weight
  and the step size, up to that call. \<open>NonFinite\<close> stands for the other runs in which an
  infinity or a NaN has been fed into the tensor arithmetic (a division by zero rows, a start
  divided by the root of an eigenvalue that is not positive): the model, whose numbers are
  real, does not follow them further.
\<close>

datatype error = InvalidArgumentError | UnboundLocalError

datatype 'a outcome = Done 'a | Raised error | NonFinite

section \<open>The functions of the source\<close>

text \<open>
  Four collaborators are not part of the source and are parameters of the model:
  \<open>normalize_Z\<close> (imported from \<open>utilities\<close>), \<open>eigsh\<close> (scipy; the call asks for the \<open>K\<close>
  algebraically largest eigenpairs and gets the eigenvalues and the matrix whose columns
  are the eigenvectors), \<open>inv_tf\<close> (\<open>lin.inv\<close>) and \<open>tape_gradient\<close>, the gradient of
  \<open>cost_fn train_features W Affinity alpha\<close> with respect to \<open>W\<close> that the gradient tape
  returns.
\<close>

definition get_feature_affinity :: "(matrix \<Rightarrow> matrix) \<Rightarrow> matrix \<Rightarrow> matrix \<Rightarrow> matrix" where
  "get_feature_affinity normalize_Z train_features Z =
     (let Z' = normalize_Z Z;
          L = matmul (tf_transpose train_features) Z';
          Affinity = matmul L (tf_transpose L)
      in Affinity)"

definition initialize_W ::
  "(matrix \<Rightarrow> nat \<Rightarrow> real list \<times> matrix) \<Rightarrow> matrix option \<Rightarrow> matrix \<Rightarrow> nat \<Rightarrow> matrix" where
  "initialize_W eigsh W Affinity K =
     (case W of
        None \<Rightarrow> (let (eig_val, eig_vec) = eigsh Affinity K in eig_vec)
      | Some W0 \<Rightarrow> W0)"

definition cost_fn :: "matrix \<Rightarrow> matrix \<Rightarrow> matrix \<Rightarrow> real \<Rightarrow> real option" where
  "cost_fn train_features W Affinity alpha =
     (let main_cost = - 1 * trace (matmul (tf_transpose W) (matmul Affinity W));
          projected_values = matmul train_features W;
          reg = square (norm_fro (subtract (tf_abs projected_values) 1))
      in fdiv (main_cost + 0.5 * alpha * reg) (real (nrows train_features)))"

definition grad_J :: "matrix \<Rightarrow> matrix \<Rightarrow> matrix" where
  "grad_J grad W = sub grad (matmul (matmul W (tf_transpose grad)) W)"

definition generalized_grad_J :: "matrix \<Rightarrow> matrix \<Rightarrow> matrix \<Rightarrow> matrix option \<Rightarrow> matrix" where
  "generalized_grad_J grad W M K_inv =
     (let WGW = matmul (matmul W (tf_transpose grad)) W
      in case K_inv of
           None \<Rightarrow> sub grad (matmul M WGW)
         | Some Ki \<Rightarrow> sub grad (matmul (matmul M WGW) Ki))"

definition compute_alpha :: "matrix \<Rightarrow> matrix \<Rightarrow> matrix \<Rightarrow> real option" where
  "compute_alpha train_features W Affinity =
     (let main_cost = - 1 * trace (matmul (tf_transpose W) (matmul Affinity W));
          projected_values = matmul train_features W;
          reg = square (norm_fro (subtract (tf_abs projected_values) 1));
          alpha = map_option abs (fdiv (2 * main_cost) reg)
      in alpha)"

subsection \<open>The main loop\<close>

text \<open>
  The variables that an iteration changes: the point \<open>W\<close>, the step size \<open>lr\<close> (a float,
  \<open>None\<close> once a zero denominator has made it a NaN) and the buffer \<open>cost_values\<close>, which
  is allocated with \<open>maxiter\<close> zeros.
\<close>

record state =
  st_W :: matrix
  st_lr :: "real option"
  st_cost_values :: "real list"

text \<open>
  The convergence test of both loops, \<open>np.abs(convg_check) < 1e-4\<close>: a zero
  \<open>cost_values[it - 10]\<close> makes \<open>convg_check\<close> an infinity or a NaN, and the comparison false.
\<close>

definition converged :: "real list \<Rightarrow> nat \<Rightarrow> bool" where
  "converged cost_values it =
     (case fdiv (cost_values ! it - cost_values ! (it - 10)) (cost_values ! (it - 10)) of
        None \<Rightarrow> False
      | Some convg_check \<Rightarrow> \<bar>convg_check\<bar> < 1 / 10000)"

text \<open>
  One pass through the body of the loop of \<open>ESH_manifold\<close>. The flag of the result says
  whether the pass left the loop by \<open>break\<close>. In a pass entered with a step size that is a
  NaN, every entry of \<open>lr*0.5*F\<close> and of the Cayley factor \<open>I + lr*0.5*F\<close> is a NaN, and
  \<open>lin.inv\<close> raises on it.
\<close>

definition plain_iteration ::
  "(matrix \<Rightarrow> error + matrix) \<Rightarrow> (matrix \<Rightarrow> matrix \<Rightarrow> real \<Rightarrow> matrix \<Rightarrow> matrix) \<Rightarrow>
   matrix \<Rightarrow> matrix \<Rightarrow> real \<Rightarrow> matrix \<Rightarrow> nat \<Rightarrow> state \<Rightarrow> (bool \<times> state) outcome" where
  "plain_iteration inv_tf tape_gradient train_features Affinity alpha I it s =
     (let W_old = st_W s in
      case cost_fn train_features (st_W s) Affinity alpha of
        None \<Rightarrow> NonFinite
      | Some cost \<Rightarrow>
     (let cost_values = (st_cost_values s)[it := cost];
          grad = tape_gradient train_features Affinity alpha (st_W s);
          F0 = matmul grad (tf_transpose (st_W s));
          F = sub F0 (tf_transpose F0)
      in case st_lr s of
        None \<Rightarrow> Raised InvalidArgumentError
      | Some lr \<Rightarrow>
     (case inv_tf (add I (scale (lr * 0.5) F)) of
        Inl e \<Rightarrow> Raised e
      | Inr P \<Rightarrow>
     (let Q = matmul P (sub I (scale (lr * 0.5) F));
          W = matmul Q (st_W s)
      in if it mod 10 = 0 \<and> it > 0 \<and> converged cost_values it
         then Done (True, \<lparr>st_W = W, st_lr = Some lr, st_cost_values = cost_values\<rparr>)
         else
          (let M_it = sub W W_old;
               Y_it = sub (grad_J grad W) (grad_J grad W_old);
               lr' = map_option abs
                       (fdiv (trace (matmul (tf_transpose M_it) Y_it))
                             (trace (matmul (tf_transpose Y_it) Y_it)))
           in Done (False, \<lparr>st_W = W, st_lr = lr', st_cost_values = cost_values\<rparr>))))))"

text \<open>
  One pass through the body of the loop of \<open>ESH_generalized_manifold\<close>: the skew matrix is
  built with the metric \<open>M\<close>, and the lines that would update \<open>lr\<close> are comments.
\<close>

definition generalized_iteration ::
  "(matrix \<Rightarrow> error + matrix) \<Rightarrow> (matrix \<Rightarrow> matrix \<Rightarrow> real \<Rightarrow> matrix \<Rightarrow> matrix) \<Rightarrow>
   matrix \<Rightarrow> matrix \<Rightarrow> real \<Rightarrow> matrix \<Rightarrow> matrix \<Rightarrow> nat \<Rightarrow> state \<Rightarrow> (bool \<times> state) outcome" where
  "generalized_iteration inv_tf tape_gradient train_features Affinity alpha M I it s =
     (case cost_fn train_features (st_W s) Affinity alpha of
        None \<Rightarrow> NonFinite
      | Some cost \<Rightarrow>
     (let cost_values = (st_cost_values s)[it := cost];
          grad = tape_gradient train_features Affinity alpha (st_W s);
          F0 = matmul (matmul grad (tf_transpose (st_W s))) M;
          F1 = sub F0 (tf_transpose F0);
          F = matmul F1 M
      in case st_lr s of
        None \<Rightarrow> Raised InvalidArgumentError
      | Some lr \<Rightarrow>
     (case inv_tf (add I (scale (lr * 0.5) F)) of
        Inl e \<Rightarrow> Raised e
      | Inr P \<Rightarrow>
     (let Q = matmul P (sub I (scale (lr * 0.5) F));
          W = matmul Q (st_W s)
      in if it mod 10 = 0 \<and> it > 0 \<and> converged cost_values it
         then Done (True, \<lparr>st_W = W, st_lr = Some lr, st_cost_values = cost_values\<rparr>)
         else Done (False, \<lparr>st_W = W, st_lr = Some lr, st_cost_values = cost_values\<rparr>)))))"


text \<open>
  \<open>for it in range(maxiter)\<close>, entered with \<open>it < maxiter\<close>, and the \<open>return\<close> after it:
  the loop ends by \<open>break\<close> or when \<open>it\<close> was the last index, and the result is the current
  \<open>W\<close> with \<open>cost_values[:it + 1]\<close>.
\<close>

function main_loop ::
  "(nat \<Rightarrow> state \<Rightarrow> (bool \<times> state) outcome) \<Rightarrow> nat \<Rightarrow> nat \<Rightarrow> state \<Rightarrow>
   (matrix \<times> real list) outcome" where
  "main_loop body maxiter it s =
     (case body it s of
        Raised e \<Rightarrow> Raised e
      | NonFinite \<Rightarrow> NonFinite
      | Done (brk, s') \<Rightarrow>
          if brk \<or> \<not> Suc it < maxiter
          then Done (st_W s', take (it + 1) (st_cost_values s'))
          else main_loop body maxiter (Suc it) s')"
  by pat_completeness auto
termination
  by (relation "measure (\<lambda>(body, maxiter, it, s). maxiter - it)") auto

declare main_loop.simps [simp del]

text \<open>
  The two solvers. When \<open>compute_alpha\<close> divides by a zero \<open>reg\<close>, the weight is an infinity
  or a NaN: the cost of the first pass, with the product of that weight and the zero
  \<open>reg\<close>, is a NaN, so are its gradient, the skew matrix and the Cayley factor, and
  \<open>lin.inv\<close> raises in the first pass.
\<close>

definition ESH_manifold ::
  "(matrix \<Rightarrow> matrix) \<Rightarrow> (matrix \<Rightarrow> nat \<Rightarrow> real list \<times> matrix) \<Rightarrow> (matrix \<Rightarrow> error + matrix) \<Rightarrow>
   (matrix \<Rightarrow> matrix \<Rightarrow> real \<Rightarrow> matrix \<Rightarrow> matrix) \<Rightarrow>
   matrix \<Rightarrow> matrix \<Rightarrow> nat \<Rightarrow> real option \<Rightarrow> real \<Rightarrow> nat \<Rightarrow> matrix option \<Rightarrow>
   (matrix \<times> real list) outcome" where
  "ESH_manifold normalize_Z eigsh inv_tf tape_gradient train_features Z K alpha lr maxiter W =
     (let Affinity = get_feature_affinity normalize_Z train_features Z;
          W0 = initialize_W eigsh W Affinity K;
          cost_values = replicate maxiter 0;
          I = eye (nrows W0);
          alpha' = (case alpha of
                      None \<Rightarrow> compute_alpha train_features W0 Affinity
                    | Some a \<Rightarrow> Some a)
      in if maxiter = 0 then Raised UnboundLocalError
         else case alpha' of
           None \<Rightarrow> Raised InvalidArgumentError
         | Some a \<Rightarrow>
             main_loop (plain_iteration inv_tf tape_gradient train_features Affinity a I)
               maxiter 0 \<lparr>st_W = W0, st_lr = Some lr, st_cost_values = cost_values\<rparr>)"

text \<open>
  The start of \<open>ESH_generalized_manifold\<close>: the regularised covariance \<open>M\<close> and the point
  \<open>eig_vec / np.sqrt(eig_val)\<close>, which divides column \<open>j\<close> by the root of eigenvalue \<open>j\<close>.
\<close>

definition covariance_M :: "matrix \<Rightarrow> matrix" where
  "covariance_M train_features =
     (let M = scale (1 / real (nrows train_features))
                (matmul (tf_transpose train_features) train_features)
      in add M (scale 0.01 (eye (ncols train_features))))"

definition divide_columns :: "matrix \<Rightarrow> real list \<Rightarrow> matrix" where
  "divide_columns eig_vec d = mk (nrows eig_vec) (ncols eig_vec) (\<lambda>i j. ent eig_vec i j / d ! j)"

definition generalized_W0 :: "real list \<Rightarrow> matrix \<Rightarrow> matrix option" where
  "generalized_W0 eig_val eig_vec =
     (if list_all (\<lambda>v. 0 < v) eig_val
      then Some (divide_columns eig_vec (map sqrt eig_val))
      else None)"

definition ESH_generalized_manifold ::
  "(matrix \<Rightarrow> matrix) \<Rightarrow> (matrix \<Rightarrow> nat \<Rightarrow> real list \<times> matrix) \<Rightarrow> (matrix \<Rightarrow> error + matrix) \<Rightarrow>
   (matrix \<Rightarrow> matrix \<Rightarrow> real \<Rightarrow> matrix \<Rightarrow> matrix) \<Rightarrow>
   matrix \<Rightarrow> matrix \<Rightarrow> nat \<Rightarrow> real option \<Rightarrow> real \<Rightarrow> nat \<Rightarrow>
   (matrix \<times> real list) outcome" where
  "ESH_generalized_manifold normalize_Z eigsh inv_tf tape_gradient train_features Z K alpha lr maxiter =
     (let Affinity = get_feature_affinity normalize_Z train_features Z;
          M = covariance_M train_features;
          (eig_val, eig_vec) = eigsh M K
      in if maxiter = 0 then Raised UnboundLocalError
         else case generalized_W0 eig_val eig_vec of
           None \<Rightarrow> NonFinite
         | Some W0 \<Rightarrow>
     (let cost_values = replicate maxiter 0;
          I = eye (nrows W0);
          alpha' = (case alpha of
                      None \<Rightarrow> compute_alpha train_features W0 Affinity
                    | Some a \<Rightarrow> Some a)
      in case alpha' of
           None \<Rightarrow> Raised InvalidArgumentError
         | Some a \<Rightarrow>
             main_loop (generalized_iteration inv_tf tape_gradient train_features Affinity a M I)
               maxiter 0 \<lparr>st_W = W0, st_lr = Some lr, st_cost_values = cost_values\<rparr>))"

text \<open>
  The cost as the specification writes it, entry by entry: the trace of \<open>W\<^sup>T A W\<close>, and the
  squared Frobenius norm of \<open>|X W| - 1\<close>, over the number of rows of \<open>X\<close>.
\<close>

definition cost_formula :: "matrix \<Rightarrow> matrix \<Rightarrow> matrix \<Rightarrow> real \<Rightarrow> real" where
  "cost_formula X W A alpha =
     (let n = nrows X; d = nrows W; K = ncols W;
          trace_WAW = (\<Sum>k\<leftarrow>[0..<K]. \<Sum>i\<leftarrow>[0..<d]. \<Sum>j\<leftarrow>[0..<d]. ent W i k * ent A i j * ent W j k);
          frobenius_sq = (\<Sum>i\<leftarrow>[0..<n]. \<Sum>k\<leftarrow>[0..<K].
                            (\<bar>\<Sum>j\<leftarrow>[0..<d]. ent X i j * ent W j k\<bar> - 1)\<^sup>2)
      in (- trace_WAW + 0.5 * alpha * frobenius_sq) / real n)"

text \<open>
  The state in which pass \<open>it\<close> of the loop starts, when the loop gets there: every earlier
  pass has returned without \<open>break\<close>.
\<close>

fun state_before :: "(nat \<Rightarrow> state \<Rightarrow> (bool \<times> state) outcome) \<Rightarrow> state \<Rightarrow> nat \<Rightarrow> state option" where
  "state_before body s0 0 = Some s0"
| "state_before body s0 (Suc it) =
     (case state_before body s0 it of
        None \<Rightarrow> None
      | Some s \<Rightarrow> (case body it s of Done (False, s') \<Rightarrow> Some s' | _ \<Rightarrow> None))"

section \<open>Collaborators for concrete runs\<close>

text \<open>
  \<open>lin.inv\<close> on matrices of one or two rows: the reciprocal, and the adjugate over the
  determinant; a singular input raises.
\<close>

definition inv_small :: "matrix \<Rightarrow> error + matrix" where
  "inv_small B =
     (if nrows B = 1
      then (if ent B 0 0 = 0 then Inl InvalidArgumentError else Inr [[1 / ent B 0 0]])
      else (let a = ent B 0 0; b = ent B 0 1; c = ent B 1 0; d = ent B 1 1;
                det = a * d - b * c
            in if det = 0 then Inl InvalidArgumentError
               else Inr [[d / det, - b / det], [- c / det, a / det]]))"

text \<open>
  Modelled from the spec: the gradient that the differentiation engine, which is not part of
  the source, returns for \<open>cost_fn\<close>. The specification (design notes) gives it in closed
  form: the gradient of \<open>- trace(W\<^sup>T A W)\<close> is \<open>- 2 A W\<close>, and the gradient of the
  regularisation term follows from the chain rule through the absolute value, with
  derivative \<open>0\<close> at zero, and the squared Frobenius norm. It is used at points where the
  regularisation term is not zero; at a point where the norm is zero the chain rule goes
  through the square root at zero.
\<close>

definition closed_form_gradient :: "matrix \<Rightarrow> matrix \<Rightarrow> real \<Rightarrow> matrix \<Rightarrow> matrix" where
  "closed_form_gradient X A alpha W =
     (let P = matmul X W;
          R = mk (nrows P) (ncols P) (\<lambda>i j. (\<bar>ent P i j\<bar> - 1) * sgn (ent P i j))
      in scale (1 / real (nrows X))
           (add (scale (- 2) (matmul A W)) (scale alpha (matmul (tf_transpose X) R))))"

text \<open>
  The step size as the specification states it: the tangent gradient at the new point is
  built from the gradient evaluated at the new point, \<open>G = tape_gradient \<dots> W\<close>, and the one
  at the old point from \<open>G_old = tape_gradient \<dots> W_old\<close>.
\<close>

definition claimed_step_size ::
  "(matrix \<Rightarrow> matrix \<Rightarrow> real \<Rightarrow> matrix \<Rightarrow> matrix) \<Rightarrow> matrix \<Rightarrow> matrix \<Rightarrow> real \<Rightarrow>
   matrix \<Rightarrow> matrix \<Rightarrow> real option" where
  "claimed_step_size tape_gradient X A alpha W_old W =
     (let M_it = sub W W_old;
          G = tape_gradient X A alpha W;
          G_old = tape_gradient X A alpha W_old;
          Y_it = sub (grad_J G W) (grad_J G_old W_old)
      in map_option abs
           (fdiv (trace (matmul (tf_transpose M_it) Y_it))
                 (trace (matmul (tf_transpose Y_it) Y_it))))"

section \<open>Shapes and entries\<close>

lemma sum_list_upt: "(\<Sum>k\<leftarrow>[0..<n]. f k) = (\<Sum>k<n. f k)"
  by (simp add: interv_sum_list_conv_sum_set_nat atLeast0LessThan)

lemma nrows_mk: "nrows (mk r c f) = r"
  by (simp add: nrows_def mk_def)

lemma ncols_mk: "0 < r \<Longrightarrow> ncols (mk r c f) = c"
  by (simp add: ncols_def mk_def upt_conv_Cons split: list.splits)

lemma ent_mk: "i < r \<Longrightarrow> j < c \<Longrightarrow> ent (mk r c f) i j = f i j"
  by (simp add: ent_def mk_def)

lemma mat_mk: "0 < r \<Longrightarrow> 0 < c \<Longrightarrow> mat r c (mk r c f)"
  by (simp add: mat_def mk_def list_all_iff)

lemma mat_nrows: "mat r c A \<Longrightarrow> nrows A = r"
  by (simp add: mat_def nrows_def)

lemma mat_ncols: "mat r c A \<Longrightarrow> ncols A = c"
  by (cases A) (auto simp: mat_def ncols_def)

lemma mat_pos: "mat r c A \<Longrightarrow> 0 < r \<and> 0 < c"
  by (simp add: mat_def)

lemma mat_eq_mk: "mat r c A \<Longrightarrow> A = mk r c (ent A)"
  unfolding mat_def mk_def ent_def list_all_iff
  by (intro nth_equalityI) (auto intro!: nth_equalityI)

lemma mat_eqI:
  assumes "mat r c A" and "mat r c B"
    and "\<And>i j. i < r \<Longrightarrow> j < c \<Longrightarrow> ent A i j = ent B i j"
  shows "A = B"
proof -
  have "mk r c (ent A) = mk r c (ent B)"
    using assms(3) by (simp add: mk_def)
  then show ?thesis
    using mat_eq_mk [OF assms(1)] mat_eq_mk [OF assms(2)] by simp
qed

lemma mat_matmul: "mat r m A \<Longrightarrow> mat m c B \<Longrightarrow> mat r c (matmul A B)"
  by (simp add: matmul_def mat_nrows mat_ncols mat_mk mat_pos)

lemma ent_matmul:
  "mat r m A \<Longrightarrow> mat m c B \<Longrightarrow> i < r \<Longrightarrow> j < c \<Longrightarrow>
   ent (matmul A B) i j = (\<Sum>k<m. ent A i k * ent B k j)"
  by (simp add: matmul_def mat_nrows mat_ncols ent_mk sum_list_upt)

lemma mat_transpose: "mat r c A \<Longrightarrow> mat c r (tf_transpose A)"
  by (simp add: tf_transpose_def mat_nrows mat_ncols mat_mk mat_pos)

lemma ent_transpose:
  "mat r c A \<Longrightarrow> i < c \<Longrightarrow> j < r \<Longrightarrow> ent (tf_transpose A) i j = ent A j i"
  by (simp add: tf_transpose_def mat_nrows mat_ncols ent_mk)

lemma mat_add: "mat r c A \<Longrightarrow> mat r c (add A B)"
  by (simp add: add_def mat_nrows mat_ncols mat_mk mat_pos)

lemma ent_add:
  "mat r c A \<Longrightarrow> i < r \<Longrightarrow> j < c \<Longrightarrow> ent (add A B) i j = ent A i j + ent B i j"
  by (simp add: add_def mat_nrows mat_ncols ent_mk)

lemma mat_sub: "mat r c A \<Longrightarrow> mat r c (sub A B)"
  by (simp add: sub_def mat_nrows mat_ncols mat_mk mat_pos)

lemma ent_sub:
  "mat r c A \<Longrightarrow> i < r \<Longrightarrow> j < c \<Longrightarrow> ent (sub A B) i j = ent A i j - ent B i j"
  by (simp add: sub_def mat_nrows mat_ncols ent_mk)

lemma mat_scale: "mat r c A \<Longrightarrow> mat r c (scale x A)"
  by (simp add: scale_def mat_nrows mat_ncols mat_mk mat_pos)

lemma ent_scale:
  "mat r c A \<Longrightarrow> i < r \<Longrightarrow> j < c \<Longrightarrow> ent (scale x A) i j = x * ent A i j"
  by (simp add: scale_def mat_nrows mat_ncols ent_mk)

lemma mat_tf_abs: "mat r c A \<Longrightarrow> mat r c (tf_abs A)"
  by (simp add: tf_abs_def mat_nrows mat_ncols mat_mk mat_pos)

lemma ent_tf_abs:
  "mat r c A \<Longrightarrow> i < r \<Longrightarrow> j < c \<Longrightarrow> ent (tf_abs A) i j = \<bar>ent A i j\<bar>"
  by (simp add: tf_abs_def mat_nrows mat_ncols ent_mk)

lemma mat_subtract: "mat r c A \<Longrightarrow> mat r c (subtract A x)"
  by (simp add: subtract_def mat_nrows mat_ncols mat_mk mat_pos)

lemma ent_subtract:
  "mat r c A \<Longrightarrow> i < r \<Longrightarrow> j < c \<Longrightarrow> ent (subtract A x) i j = ent A i j - x"
  by (simp add: subtract_def mat_nrows mat_ncols ent_mk)

lemma mat_eye: "0 < n \<Longrightarrow> mat n n (eye n)"
  by (simp add: eye_def mat_mk)

lemma ent_eye: "i < n \<Longrightarrow> j < n \<Longrightarrow> ent (eye n) i j = (if i = j then 1 else 0)"
  by (simp add: eye_def ent_mk)

lemma trace_square: "mat n n A \<Longrightarrow> trace A = (\<Sum>i<n. ent A i i)"
  by (simp add: trace_def mat_nrows mat_ncols sum_list_upt)

lemma square_norm_fro:
  "mat r c A \<Longrightarrow> square (norm_fro A) = (\<Sum>i<r. \<Sum>j<c. (ent A i j)\<^sup>2)"
proof -
  assume A: "mat r c A"
  have "0 \<le> (\<Sum>i<r. \<Sum>j<c. ent A i j * ent A i j)"
    by (intro sum_nonneg) simp
  then show ?thesis
    by (simp add: square_def norm_fro_def mat_nrows [OF A] mat_ncols [OF A] sum_list_upt
        power2_eq_square)
qed

section \<open>Algebra\<close>

lemma transpose_transpose: "mat r c A \<Longrightarrow> tf_transpose (tf_transpose A) = A"
  by (rule mat_eqI [of r c])
     (simp_all add: mat_transpose ent_transpose [OF mat_transpose] ent_transpose)

lemma transpose_matmul:
  assumes A: "mat r m A" and B: "mat m c B"
  shows "tf_transpose (matmul A B) = matmul (tf_transpose B) (tf_transpose A)"
proof (rule mat_eqI [of c r])
  show "mat c r (tf_transpose (matmul A B))"
    by (rule mat_transpose [OF mat_matmul [OF A B]])
  show "mat c r (matmul (tf_transpose B) (tf_transpose A))"
    by (rule mat_matmul [OF mat_transpose [OF B] mat_transpose [OF A]])
  fix i j assume "i < c" "j < r"
  then show "ent (tf_transpose (matmul A B)) i j = ent (matmul (tf_transpose B) (tf_transpose A)) i j"
    by (simp add: ent_transpose [OF mat_matmul [OF A B]] ent_matmul [OF A B]
        ent_matmul [OF mat_transpose [OF B] mat_transpose [OF A]]
        ent_transpose [OF A] ent_transpose [OF B] mult.commute)
qed

lemma matmul_assoc:
  assumes A: "mat r m A" and B: "mat m p B" and C: "mat p c C"
  shows "matmul (matmul A B) C = matmul A (matmul B C)"
proof (rule mat_eqI [of r c])
  show "mat r c (matmul (matmul A B) C)"
    by (rule mat_matmul [OF mat_matmul [OF A B] C])
  show "mat r c (matmul A (matmul B C))"
    by (rule mat_matmul [OF A mat_matmul [OF B C]])
  fix i j assume ij: "i < r" "j < c"
  have "ent (matmul (matmul A B) C) i j = (\<Sum>l<p. (\<Sum>k<m. ent A i k * ent B k l) * ent C l j)"
    using ij by (simp add: ent_matmul [OF mat_matmul [OF A B] C] ent_matmul [OF A B])
  also have "\<dots> = (\<Sum>l<p. \<Sum>k<m. ent A i k * (ent B k l * ent C l j))"
    by (simp add: sum_distrib_right mult.assoc)
  also have "\<dots> = (\<Sum>k<m. \<Sum>l<p. ent A i k * (ent B k l * ent C l j))"
    by (rule sum.swap)
  also have "\<dots> = ent (matmul A (matmul B C)) i j"
    using ij by (simp add: ent_matmul [OF A mat_matmul [OF B C]] ent_matmul [OF B C] sum_distrib_left)
  finally show "ent (matmul (matmul A B) C) i j = ent (matmul A (matmul B C)) i j" .
qed

lemma sum_delta_left: "i < (n::nat) \<Longrightarrow> (\<Sum>k<n. (if i = k then 1 else 0) * f k) = (f i :: real)"
proof -
  assume i: "i < n"
  have "(\<Sum>k<n. (if i = k then 1 else 0) * f k) = (\<Sum>k<n. if i = k then f k else 0)"
    by (rule sum.cong) auto
  with i show ?thesis by simp
qed

lemma sum_delta_right: "j < (n::nat) \<Longrightarrow> (\<Sum>k<n. f k * (if k = j then 1 else 0)) = (f j :: real)"
proof -
  assume j: "j < n"
  have "(\<Sum>k<n. f k * (if k = j then 1 else 0)) = (\<Sum>k<n. if k = j then f k else 0)"
    by (rule sum.cong) auto
  with j show ?thesis by simp
qed

lemma matmul_eye_left: "mat r c A \<Longrightarrow> matmul (eye r) A = A"
proof (rule mat_eqI [of r c])
  assume A: "mat r c A"
  then have I: "mat r r (eye r)" by (simp add: mat_eye mat_pos)
  show "mat r c (matmul (eye r) A)" by (rule mat_matmul [OF I A])
  show "mat r c A" by (rule A)
  fix i j assume "i < r" "j < c"
  then show "ent (matmul (eye r) A) i j = ent A i j"
    by (simp add: ent_matmul [OF I A] ent_eye sum_delta_left)
qed

lemma matmul_eye_right: "mat r c A \<Longrightarrow> matmul A (eye c) = A"
proof (rule mat_eqI [of r c])
  assume A: "mat r c A"
  then have I: "mat c c (eye c)" by (simp add: mat_eye mat_pos)
  show "mat r c (matmul A (eye c))" by (rule mat_matmul [OF A I])
  show "mat r c A" by (rule A)
  fix i j assume "i < r" "j < c"
  then show "ent (matmul A (eye c)) i j = ent A i j"
    by (simp add: ent_matmul [OF A I] ent_eye sum_delta_right)
qed

lemma transpose_eye: "0 < n \<Longrightarrow> tf_transpose (eye n) = eye n"
  by (rule mat_eqI [of n n])
     (auto simp: mat_transpose mat_eye ent_transpose [OF mat_eye] ent_eye)

section \<open>Evaluating the functions on concrete matrices\<close>

lemma square_norm_fro_list:
  "square (norm_fro A) = (\<Sum>i\<leftarrow>[0..<nrows A]. \<Sum>j\<leftarrow>[0..<ncols A]. ent A i j * ent A i j)"
proof -
  have "0 \<le> (\<Sum>i\<leftarrow>[0..<nrows A]. \<Sum>j\<leftarrow>[0..<ncols A]. ent A i j * ent A i j)"
    by (auto intro!: sum_list_nonneg)
  then show ?thesis by (simp add: square_def norm_fro_def)
qed

lemma upt_0_1: "[0..<1] = [0]"
  by (simp add: upt_conv_Cons)

lemma upt_0_2: "[0..<2] = [0, 1]"
  by (simp add: upt_conv_Cons numeral_2_eq_2)

lemmas ev = upt_0_1 upt_0_2 matmul_def tf_transpose_def trace_def eye_def add_def sub_def scale_def tf_abs_def
  subtract_def mk_def nrows_def ncols_def ent_def fdiv_def square_norm_fro_list mat_def

section \<open>The loop\<close>

lemma main_loop_Done:
  assumes "main_loop body maxiter i s = Done (W', tr)"
    and "state_before body s0 i = Some s" and "i < maxiter"
  shows "\<exists>it st brk st'. i \<le> it \<and> it < maxiter \<and> state_before body s0 it = Some st \<and>
           body it st = Done (brk, st') \<and> (brk \<or> \<not> Suc it < maxiter) \<and>
           W' = st_W st' \<and> tr = take (it + 1) (st_cost_values st')"
  using assms
proof (induction body maxiter i s rule: main_loop.induct)
  case (1 body maxiter it s)
  from "1.prems"(1) obtain brk s' where b: "body it s = Done (brk, s')"
    by (subst (asm) main_loop.simps) (auto split: outcome.splits)
  show ?case
  proof (cases "brk \<or> \<not> Suc it < maxiter")
    case True
    with "1.prems" b have "W' = st_W s'" "tr = take (it + 1) (st_cost_values s')"
      by (subst (asm) main_loop.simps, simp)+
    with b True "1.prems"(2,3) show ?thesis by blast
  next
    case False
    with "1.prems"(1) b have m: "main_loop body maxiter (Suc it) s' = Done (W', tr)"
      by (subst (asm) main_loop.simps) simp
    from False b "1.prems"(2) have sb: "state_before body s0 (Suc it) = Some s'"
      by simp
    from "1.IH" [OF b refl _ m sb] False
    obtain it' st brk' st' where "Suc it \<le> it'" "it' < maxiter"
      "state_before body s0 it' = Some st"
      "body it' st = Done (brk', st')" "brk' \<or> \<not> Suc it' < maxiter"
      "W' = st_W st'" "tr = take (it' + 1) (st_cost_values st')"
      by auto
    then show ?thesis
      by (intro exI [of _ it'] exI [of _ st] exI [of _ brk'] exI [of _ st']) simp
  qed
qed

lemma state_before_None:
  "state_before body s0 i = None \<Longrightarrow> i \<le> j \<Longrightarrow> state_before body s0 j = None"
  by (induction j) (auto simp: le_Suc_eq)

lemma main_loop_returns:
  assumes "state_before body s0 it = Some st" and "body it st = Done (brk, st')"
    and "brk \<or> \<not> Suc it < maxiter" and "i \<le> it" and "state_before body s0 i = Some s"
    and "it < maxiter"
  shows "main_loop body maxiter i s = Done (st_W st', take (it + 1) (st_cost_values st'))"
  using assms(4,5)
proof (induction "it - i" arbitrary: i s)
  case 0
  then have "i = it" by simp
  with "0.prems" assms(1) have "s = st" by simp
  with \<open>i = it\<close> assms(2,3) show ?case
    by (subst main_loop.simps) auto
next
  case (Suc n)
  then have lt: "i < it" by simp
  have "\<exists>s'. body i s = Done (False, s')"
  proof (rule ccontr)
    assume neg: "\<not> ?thesis"
    with Suc.prems(2) have none: "state_before body s0 (Suc i) = None"
      by (cases "body i s") (auto split: bool.splits)
    from state_before_None [OF none, of it] lt assms(1) show False by simp
  qed
  then obtain s' where s': "body i s = Done (False, s')"
    "state_before body s0 (Suc i) = Some s'" using Suc.prems(2) by auto
  from lt assms(6) have "Suc i < maxiter"
    by simp
  moreover have "main_loop body maxiter (Suc i) s' =
      Done (st_W st', take (it + 1) (st_cost_values st'))"
    using Suc.hyps(1) [of "Suc i" s'] Suc.hyps(2) lt s'(2) by simp
  ultimately show ?case
    using s'(1) by (subst main_loop.simps) simp
qed



section \<open>One pass of a loop, and a whole run\<close>

lemma plain_iteration_Done:
  assumes "plain_iteration inv_tf tape_gradient X A a I it s = Done (brk, s')"
  shows "\<exists>c lr P. cost_fn X (st_W s) A a = Some c \<and> st_lr s = Some lr \<and>
           (let G = tape_gradient X A a (st_W s);
                F0 = matmul G (tf_transpose (st_W s));
                F = sub F0 (tf_transpose F0)
            in inv_tf (add I (scale (lr * 0.5) F)) = Inr P \<and>
               st_W s' = matmul (matmul P (sub I (scale (lr * 0.5) F))) (st_W s)) \<and>
           st_cost_values s' = (st_cost_values s)[it := c] \<and>
           (brk \<longleftrightarrow> it mod 10 = 0 \<and> it > 0 \<and> converged (st_cost_values s') it)"
  using assms unfolding plain_iteration_def Let_def
  by (auto split: option.splits sum.splits if_splits)

lemma generalized_iteration_Done:
  assumes "generalized_iteration inv_tf tape_gradient X A a M I it s = Done (brk, s')"
  shows "\<exists>c lr P. cost_fn X (st_W s) A a = Some c \<and> st_lr s = Some lr \<and>
           (let G = tape_gradient X A a (st_W s);
                F0 = matmul (matmul G (tf_transpose (st_W s))) M;
                F = matmul (sub F0 (tf_transpose F0)) M
            in inv_tf (add I (scale (lr * 0.5) F)) = Inr P \<and>
               st_W s' = matmul (matmul P (sub I (scale (lr * 0.5) F))) (st_W s)) \<and>
           st_cost_values s' = (st_cost_values s)[it := c] \<and>
           st_lr s' = st_lr s \<and>
           (brk \<longleftrightarrow> it mod 10 = 0 \<and> it > 0 \<and> converged (st_cost_values s') it)"
  using assms unfolding generalized_iteration_def Let_def
  by (auto split: option.splits sum.splits if_splits)

lemma converged_iff:
  "converged cv it \<longleftrightarrow>
     cv ! (it - 10) \<noteq> 0 \<and> \<bar>(cv ! it - cv ! (it - 10)) / cv ! (it - 10)\<bar> < 1 / 10000"
  by (simp add: converged_def fdiv_def)

lemma converged_update: "j < i \<Longrightarrow> converged (cv[i := c]) j = converged cv j"
  by (simp add: converged_iff)

lemma converged_take: "j < k \<Longrightarrow> converged (take k cv) j = converged cv j"
  by (simp add: converged_iff)

lemma loop_invariant:
  assumes spec: "\<And>it s brk s'. body it s = Done (brk, s') \<Longrightarrow>
      (\<exists>c. cost (st_W s) = Some c \<and> st_cost_values s' = (st_cost_values s)[it := c]) \<and>
      (brk \<longleftrightarrow> it mod 10 = 0 \<and> it > 0 \<and> converged (st_cost_values s') it)"
    and "state_before body s0 it = Some s" and "it \<le> length (st_cost_values s0)"
  shows "length (st_cost_values s) = length (st_cost_values s0) \<and>
         (\<forall>j<it. (\<exists>sj. state_before body s0 j = Some sj \<and>
                       cost (st_W sj) = Some (st_cost_values s ! j)) \<and>
                 \<not> (j mod 10 = 0 \<and> j > 0 \<and> converged (st_cost_values s) j))"
  using assms(2,3)
proof (induction it arbitrary: s)
  case 0
  then show ?case by simp
next
  case (Suc it)
  from Suc.prems(1) obtain s1 where s1: "state_before body s0 it = Some s1"
    and b: "body it s1 = Done (False, s)"
    by (auto split: option.splits outcome.splits bool.splits)
  from Suc.IH [OF s1] Suc.prems(2)
  have len: "length (st_cost_values s1) = length (st_cost_values s0)"
    and old: "\<And>j. j < it \<Longrightarrow> (\<exists>sj. state_before body s0 j = Some sj \<and>
                       cost (st_W sj) = Some (st_cost_values s1 ! j)) \<and>
                 \<not> (j mod 10 = 0 \<and> j > 0 \<and> converged (st_cost_values s1) j)"
    by simp_all
  from spec [OF b] obtain c where c: "cost (st_W s1) = Some c"
    and cv: "st_cost_values s = (st_cost_values s1)[it := c]"
    and nb: "\<not> (it mod 10 = 0 \<and> it > 0 \<and> converged (st_cost_values s) it)"
    by auto
  have "(\<exists>sj. state_before body s0 j = Some sj \<and> cost (st_W sj) = Some (st_cost_values s ! j)) \<and>
        \<not> (j mod 10 = 0 \<and> j > 0 \<and> converged (st_cost_values s) j)" if "j < Suc it" for j
  proof (cases "j = it")
    case True
    with s1 c cv len Suc.prems(2) nb show ?thesis by auto
  next
    case False
    with that have "j < it" by simp
    with old [OF this] cv show ?thesis by (simp add: converged_update)
  qed
  with cv len show ?case by simp
qed

lemma main_loop_result:
  assumes spec: "\<And>it s brk s'. body it s = Done (brk, s') \<Longrightarrow>
      (\<exists>c. cost (st_W s) = Some c \<and> st_cost_values s' = (st_cost_values s)[it := c]) \<and>
      (brk \<longleftrightarrow> it mod 10 = 0 \<and> it > 0 \<and> converged (st_cost_values s') it)"
    and run: "main_loop body maxiter 0 s0 = Done (W', tr)"
    and len: "length (st_cost_values s0) = maxiter" and pos: "0 < maxiter"
  shows "\<exists>it s brk s'. length tr = Suc it \<and> it < maxiter \<and>
           state_before body s0 it = Some s \<and> body it s = Done (brk, s') \<and> W' = st_W s' \<and>
           (brk \<or> Suc it = maxiter) \<and>
           (brk \<longleftrightarrow> it mod 10 = 0 \<and> it > 0 \<and> converged tr it) \<and>
           (\<forall>j<it. \<not> (j mod 10 = 0 \<and> j > 0 \<and> converged tr j)) \<and>
           (\<forall>j\<le>it. \<exists>sj. state_before body s0 j = Some sj \<and> cost (st_W sj) = Some (tr ! j))"
proof -
  have sb0: "state_before body s0 0 = Some s0" by simp
  from main_loop_Done [OF run sb0 pos]
  obtain it s brk s' where it: "it < maxiter" and sb: "state_before body s0 it = Some s"
    and b: "body it s = Done (brk, s')" and stop: "brk \<or> \<not> Suc it < maxiter"
    and W': "W' = st_W s'" and tr: "tr = take (it + 1) (st_cost_values s')"
    by blast
  from loop_invariant [of body cost, OF spec sb] it len
  have l: "length (st_cost_values s) = maxiter"
    and old: "\<And>j. j < it \<Longrightarrow> (\<exists>sj. state_before body s0 j = Some sj \<and>
                       cost (st_W sj) = Some (st_cost_values s ! j)) \<and>
                 \<not> (j mod 10 = 0 \<and> j > 0 \<and> converged (st_cost_values s) j)"
    by simp_all
  from spec [OF b] obtain c where c: "cost (st_W s) = Some c"
    and cv: "st_cost_values s' = (st_cost_values s)[it := c]"
    and brk: "brk \<longleftrightarrow> it mod 10 = 0 \<and> it > 0 \<and> converged (st_cost_values s') it"
    by auto
  have 1: "length tr = Suc it" using tr cv l it by simp
  have 2: "brk \<or> Suc it = maxiter" using stop it by auto
  have 3: "brk \<longleftrightarrow> it mod 10 = 0 \<and> it > 0 \<and> converged tr it"
    using brk tr by (simp add: converged_take)
  have 4: "\<not> (j mod 10 = 0 \<and> j > 0 \<and> converged tr j)" if "j < it" for j
    using old [OF that] that tr cv by (simp add: converged_take converged_update)
  have 5: "\<exists>sj. state_before body s0 j = Some sj \<and> cost (st_W sj) = Some (tr ! j)" if "j \<le> it" for j
  proof (cases "j = it")
    case True
    with sb c tr cv l it show ?thesis by simp
  next
    case False
    with that have "j < it" by simp
    with old [OF this] tr cv show ?thesis by simp
  qed
  have q4: "\<forall>j<it. \<not> (j mod 10 = 0 \<and> j > 0 \<and> converged tr j)"
    using 4 by blast
  have q5: "\<forall>j\<le>it. \<exists>sj. state_before body s0 j = Some sj \<and> cost (st_W sj) = Some (tr ! j)"
    using 5 by blast
  show ?thesis
    by (rule exI [of _ it], rule exI [of _ s], rule exI [of _ brk], rule exI [of _ s'])
       (intro conjI 1 it sb b W' 2 3 q4 q5)
qed

lemma plain_iteration_eval:
  assumes "cost_fn X W A a = Some c"
    and "tape_gradient X A a W = G"
    and "sub (matmul G (tf_transpose W)) (tf_transpose (matmul G (tf_transpose W))) = F"
    and "inv_tf (add I (scale (lr * 0.5) F)) = Inr P"
    and "matmul (matmul P (sub I (scale (lr * 0.5) F))) W = W1"
    and "cv' = cv[it := c]"
    and "brk = (it mod 10 = 0 \<and> it > 0 \<and> converged cv' it)"
    and "lr' = (if brk then Some lr else
                map_option abs
                  (fdiv (trace (matmul (tf_transpose (sub W1 W)) (sub (grad_J G W1) (grad_J G W))))
                        (trace (matmul (tf_transpose (sub (grad_J G W1) (grad_J G W)))
                                  (sub (grad_J G W1) (grad_J G W))))))"
  shows "plain_iteration inv_tf tape_gradient X A a I it
           \<lparr>st_W = W, st_lr = Some lr, st_cost_values = cv\<rparr> =
         Done (brk, \<lparr>st_W = W1, st_lr = lr', st_cost_values = cv'\<rparr>)"
  using assms unfolding plain_iteration_def by (simp add: Let_def)

lemma generalized_iteration_eval:
  assumes "cost_fn X W A a = Some c"
    and "tape_gradient X A a W = G"
    and "matmul (sub (matmul (matmul G (tf_transpose W)) M)
                  (tf_transpose (matmul (matmul G (tf_transpose W)) M))) M = F"
    and "inv_tf (add I (scale (lr * 0.5) F)) = Inr P"
    and "matmul (matmul P (sub I (scale (lr * 0.5) F))) W = W1"
    and "cv' = cv[it := c]"
    and "brk = (it mod 10 = 0 \<and> it > 0 \<and> converged cv' it)"
  shows "generalized_iteration inv_tf tape_gradient X A a M I it
           \<lparr>st_W = W, st_lr = Some lr, st_cost_values = cv\<rparr> =
         Done (brk, \<lparr>st_W = W1, st_lr = Some lr, st_cost_values = cv'\<rparr>)"
  using assms unfolding generalized_iteration_def by (simp add: Let_def)


section \<open>The two solvers as runs of the loop\<close>

lemma plain_iteration_spec:
  assumes "plain_iteration inv_tf tape_gradient X A a I it s = Done (brk, s')"
  shows "(\<exists>c. cost_fn X (st_W s) A a = Some c \<and> st_cost_values s' = (st_cost_values s)[it := c]) \<and>
         (brk \<longleftrightarrow> it mod 10 = 0 \<and> it > 0 \<and> converged (st_cost_values s') it)"
  using plain_iteration_Done [OF assms] by (auto simp: Let_def)

lemma generalized_iteration_spec:
  assumes "generalized_iteration inv_tf tape_gradient X A a M I it s = Done (brk, s')"
  shows "(\<exists>c. cost_fn X (st_W s) A a = Some c \<and> st_cost_values s' = (st_cost_values s)[it := c]) \<and>
         (brk \<longleftrightarrow> it mod 10 = 0 \<and> it > 0 \<and> converged (st_cost_values s') it)"
  using generalized_iteration_Done [OF assms] by (auto simp: Let_def)

lemma ESH_manifold_loop:
  assumes "0 < maxiter" and "A = get_feature_affinity normalize_Z X Z"
    and "W0 = initialize_W eigsh W A K"
    and "(case alpha of None \<Rightarrow> compute_alpha X W0 A | Some a \<Rightarrow> Some a) = Some a"
  shows "ESH_manifold normalize_Z eigsh inv_tf tape_gradient X Z K alpha lr maxiter W =
         main_loop (plain_iteration inv_tf tape_gradient X A a (eye (nrows W0))) maxiter 0
           \<lparr>st_W = W0, st_lr = Some lr, st_cost_values = replicate maxiter 0\<rparr>"
  using assms by (cases alpha) (auto simp: ESH_manifold_def Let_def)

lemma ESH_generalized_manifold_loop:
  assumes "0 < maxiter" and "A = get_feature_affinity normalize_Z X Z"
    and "M = covariance_M X" and "eigsh M K = (eig_val, eig_vec)"
    and "generalized_W0 eig_val eig_vec = Some W0"
    and "(case alpha of None \<Rightarrow> compute_alpha X W0 A | Some a \<Rightarrow> Some a) = Some a"
  shows "ESH_generalized_manifold normalize_Z eigsh inv_tf tape_gradient X Z K alpha lr maxiter =
         main_loop (generalized_iteration inv_tf tape_gradient X A a M (eye (nrows W0))) maxiter 0
           \<lparr>st_W = W0, st_lr = Some lr, st_cost_values = replicate maxiter 0\<rparr>"
  using assms by (cases alpha) (auto simp: ESH_generalized_manifold_def Let_def)

lemma solve_is_loop:
  assumes "solve = ESH_manifold normalize_Z eigsh inv_tf tape_gradient X Z K alpha lr maxiter W \<and>
             W0 = initialize_W eigsh W A K \<and>
             body = plain_iteration inv_tf tape_gradient X A a (eye (nrows W0)) \<or>
           solve = ESH_generalized_manifold normalize_Z eigsh inv_tf tape_gradient X Z K alpha lr maxiter \<and>
             eigsh (covariance_M X) K = (eig_val, eig_vec) \<and>
             generalized_W0 eig_val eig_vec = Some W0 \<and>
             body = generalized_iteration inv_tf tape_gradient X A a (covariance_M X) (eye (nrows W0))"
    and "A = get_feature_affinity normalize_Z X Z"
    and "(case alpha of None \<Rightarrow> compute_alpha X W0 A | Some a \<Rightarrow> Some a) = Some a"
    and "0 < maxiter"
  shows "solve = main_loop body maxiter 0
           \<lparr>st_W = W0, st_lr = Some lr, st_cost_values = replicate maxiter 0\<rparr>"
  using assms(1)
proof (elim disjE conjE)
  assume 1: "solve = ESH_manifold normalize_Z eigsh inv_tf tape_gradient X Z K alpha lr maxiter W"
    and 2: "W0 = initialize_W eigsh W A K"
    and 3: "body = plain_iteration inv_tf tape_gradient X A a (eye (nrows W0))"
  show ?thesis
    unfolding 1 3 by (rule ESH_manifold_loop [where eigsh = eigsh, OF assms(4) assms(2) 2 assms(3)])
next
  assume 1: "solve = ESH_generalized_manifold normalize_Z eigsh inv_tf tape_gradient X Z K alpha lr maxiter"
    and 2: "eigsh (covariance_M X) K = (eig_val, eig_vec)"
    and 3: "generalized_W0 eig_val eig_vec = Some W0"
    and 4: "body = generalized_iteration inv_tf tape_gradient X A a (covariance_M X) (eye (nrows W0))"
  show ?thesis
    unfolding 1 4 by (rule ESH_generalized_manifold_loop
        [where M = "covariance_M X" and X = X and eigsh = eigsh and K = K, OF assms(4) assms(2) refl 2 3 assms(3)])
qed

lemma solver_body_spec:
  assumes "body = plain_iteration inv_tf tape_gradient X A a I \<or>
           body = generalized_iteration inv_tf tape_gradient X A a M I"
    and "body it s = Done (brk, s')"
  shows "(\<exists>c. cost_fn X (st_W s) A a = Some c \<and> st_cost_values s' = (st_cost_values s)[it := c]) \<and>
         (brk \<longleftrightarrow> it mod 10 = 0 \<and> it > 0 \<and> converged (st_cost_values s') it)"
  using assms(1)
proof
  assume "body = plain_iteration inv_tf tape_gradient X A a I"
  with assms(2) show ?thesis by (simp only: plain_iteration_spec)
next
  assume "body = generalized_iteration inv_tf tape_gradient X A a M I"
  with assms(2) show ?thesis by (simp only: generalized_iteration_spec)
qed

lemma solve_Done_pos:
  assumes "solve = ESH_manifold normalize_Z eigsh inv_tf tape_gradient X Z K alpha lr maxiter W \<or>
           solve = ESH_generalized_manifold normalize_Z eigsh inv_tf tape_gradient X Z K alpha lr maxiter"
    and "solve = Done r"
  shows "0 < maxiter"
proof (rule ccontr)
  assume "\<not> 0 < maxiter"
  then have "maxiter = 0" by simp
  with assms show False
    by (auto simp: ESH_manifold_def ESH_generalized_manifold_def Let_def
        split: option.splits prod.splits)
qed

lemma solve_None_alpha:
  assumes "solve = ESH_manifold normalize_Z eigsh inv_tf tape_gradient X Z K None lr maxiter W \<and>
             Wi = initialize_W eigsh W A K \<or>
           solve = ESH_generalized_manifold normalize_Z eigsh inv_tf tape_gradient X Z K None lr maxiter \<and>
             eigsh (covariance_M X) K = (eig_val, eig_vec) \<and>
             generalized_W0 eig_val eig_vec = Some Wi"
    and "A = get_feature_affinity normalize_Z X Z"
    and "solve = Done r"
  shows "\<exists>a. compute_alpha X Wi A = Some a"
  using assms
  by (auto simp: ESH_manifold_def ESH_generalized_manifold_def Let_def
      split: option.splits if_splits)

section \<open>Concrete runs\<close>

subsection \<open>A run of the plain solver on two features\<close>

text \<open>
  One sample with the features \<open>(1, 0)\<close>, one anchor, the start \<open>W = (3/5, 4/5)\<close>,
  \<open>alpha = 1\<close> and \<open>lr = 25/16\<close>: the first pass turns \<open>W\<close> by a quarter turn.
\<close>

lemma example_affinity:
  "get_feature_affinity (\<lambda>Z. Z) [[1, 0]] [[1]] = [[1, 0], [0, 0]]"
  by (simp add: get_feature_affinity_def ev)

lemma example_pass:
  "plain_iteration inv_small closed_form_gradient [[1, 0]] [[1, 0], [0, 0]] 1 (eye 2) 0
     \<lparr>st_W = [[3 / 5], [4 / 5]], st_lr = Some (25 / 16), st_cost_values = [0]\<rparr> =
   Done (False, \<lparr>st_W = [[4 / 5], [- 3 / 5]], st_lr = Some (7 / 8), st_cost_values = [- 7 / 25]\<rparr>)"
proof (rule plain_iteration_eval [where c = "- 7 / 25" and G = "[[- 8 / 5], [0]]"
      and F = "[[0, - 32 / 25], [32 / 25, 0]]" and P = "[[1 / 2, 1 / 2], [- 1 / 2, 1 / 2]]"])
  show "cost_fn [[1, 0]] [[3 / 5], [4 / 5]] [[1, 0], [0, 0]] 1 = Some (- 7 / 25)"
    by (simp add: cost_fn_def ev)
  show "closed_form_gradient [[1, 0]] [[1, 0], [0, 0]] 1 [[3 / 5], [4 / 5]] = [[- 8 / 5], [0]]"
    by (simp add: closed_form_gradient_def ev Let_def)
  show "sub (matmul [[- 8 / 5], [0]] (tf_transpose [[3 / 5], [4 / 5]]))
          (tf_transpose (matmul [[- 8 / 5], [0]] (tf_transpose [[3 / 5], [4 / 5]]))) =
        [[0, - 32 / 25], [32 / 25, 0]]"
    by (simp add: ev)
  show "inv_small (add (eye 2) (scale (25 / 16 * 0.5) [[0, - 32 / 25], [32 / 25, 0]])) =
        Inr [[1 / 2, 1 / 2], [- 1 / 2, 1 / 2]]"
    by (simp add: inv_small_def ev Let_def)
  show "matmul (matmul [[1 / 2, 1 / 2], [- 1 / 2, 1 / 2]]
          (sub (eye 2) (scale (25 / 16 * 0.5) [[0, - 32 / 25], [32 / 25, 0]]))) [[3 / 5], [4 / 5]] =
        [[4 / 5], [- 3 / 5]]"
    by (simp add: ev)
  show "[- 7 / 25] = [0][0 := - 7 / 25]" by simp
  show "False = (0 mod 10 = 0 \<and> (0::nat) > 0 \<and> converged [- 7 / 25] 0)" by simp
  show "Some (7 / 8) = (if False then Some (25 / 16) else
     map_option abs
      (fdiv (trace (matmul (tf_transpose (sub [[4 / 5], [- 3 / 5]] [[3 / 5], [4 / 5]]))
          (sub (grad_J [[- 8 / 5], [0]] [[4 / 5], [- 3 / 5]]) (grad_J [[- 8 / 5], [0]] [[3 / 5], [4 / 5]]))))
        (trace (matmul (tf_transpose (sub (grad_J [[- 8 / 5], [0]] [[4 / 5], [- 3 / 5]])
              (grad_J [[- 8 / 5], [0]] [[3 / 5], [4 / 5]])))
          (sub (grad_J [[- 8 / 5], [0]] [[4 / 5], [- 3 / 5]]) (grad_J [[- 8 / 5], [0]] [[3 / 5], [4 / 5]]))))))"
    by (simp add: grad_J_def ev)
qed

lemma example_plain_solve:
  "ESH_manifold (\<lambda>Z. Z) (\<lambda>A K. ([], [])) inv_small closed_form_gradient
     [[1, 0]] [[1]] 1 (Some 1) (25 / 16) 1 (Some [[3 / 5], [4 / 5]]) =
   Done ([[4 / 5], [- 3 / 5]], [- 7 / 25])"
proof -
  have n: "nrows [[3 / 5], [4 / 5 :: real]] = 2"
    by (simp add: nrows_def)
  have "ESH_manifold (\<lambda>Z. Z) (\<lambda>A K. ([], [])) inv_small closed_form_gradient
     [[1, 0]] [[1]] 1 (Some 1) (25 / 16) 1 (Some [[3 / 5], [4 / 5]]) =
     main_loop (plain_iteration inv_small closed_form_gradient [[1, 0]] [[1, 0], [0, 0]] 1
        (eye (nrows [[3 / 5], [4 / 5 :: real]]))) 1 0
      \<lparr>st_W = [[3 / 5], [4 / 5]], st_lr = Some (25 / 16), st_cost_values = replicate 1 0\<rparr>"
    by (rule ESH_manifold_loop [where eigsh = "\<lambda>A K. ([], [])"])
       (simp_all add: example_affinity initialize_W_def)
  also have "\<dots> = Done ([[4 / 5], [- 3 / 5]], [- 7 / 25])"
    using example_pass by (subst main_loop.simps) (simp add: n)
  finally show ?thesis .
qed

subsection \<open>The run on two features with the weight selected by the solver\<close>

lemma example_auto_alpha:
  "compute_alpha [[1, 0]] [[3 / 5], [4 / 5]] [[1, 0], [0, 0]] = Some (9 / 2)"
  by (simp add: compute_alpha_def ev)

lemma example_auto_pass:
  "plain_iteration inv_small closed_form_gradient [[1, 0]] [[1, 0], [0, 0]] (9 / 2) (eye 2) 0
     \<lparr>st_W = [[3 / 5], [4 / 5]], st_lr = Some (5 / 6), st_cost_values = [0]\<rparr> =
   Done (False, \<lparr>st_W = [[4 / 5], [- 3 / 5]], st_lr = Some (7 / 15), st_cost_values = [0]\<rparr>)"
proof (rule plain_iteration_eval [where c = 0 and G = "[[- 3], [0]]"
      and F = "[[0, - 12 / 5], [12 / 5, 0]]" and P = "[[1 / 2, 1 / 2], [- 1 / 2, 1 / 2]]"])
  show "cost_fn [[1, 0]] [[3 / 5], [4 / 5]] [[1, 0], [0, 0]] (9 / 2) = Some 0"
    by (simp add: cost_fn_def ev)
  show "closed_form_gradient [[1, 0]] [[1, 0], [0, 0]] (9 / 2) [[3 / 5], [4 / 5]] = [[- 3], [0]]"
    by (simp add: closed_form_gradient_def ev Let_def)
  show "sub (matmul [[- 3], [0]] (tf_transpose [[3 / 5], [4 / 5]]))
          (tf_transpose (matmul [[- 3], [0]] (tf_transpose [[3 / 5], [4 / 5]]))) =
        [[0, - 12 / 5], [12 / 5, 0]]"
    by (simp add: ev)
  show "inv_small (add (eye 2) (scale (5 / 6 * 0.5) [[0, - 12 / 5], [12 / 5, 0]])) =
        Inr [[1 / 2, 1 / 2], [- 1 / 2, 1 / 2]]"
    by (simp add: inv_small_def ev Let_def)
  show "matmul (matmul [[1 / 2, 1 / 2], [- 1 / 2, 1 / 2]]
          (sub (eye 2) (scale (5 / 6 * 0.5) [[0, - 12 / 5], [12 / 5, 0]]))) [[3 / 5], [4 / 5]] =
        [[4 / 5], [- 3 / 5]]"
    by (simp add: ev)
  show "[0] = [0][0 := (0::real)]" by simp
  show "False = (0 mod 10 = 0 \<and> (0::nat) > 0 \<and> converged [0] 0)" by simp
  show "Some (7 / 15) = (if False then Some (5 / 6) else
     map_option abs
      (fdiv (trace (matmul (tf_transpose (sub [[4 / 5], [- 3 / 5]] [[3 / 5], [4 / 5]]))
          (sub (grad_J [[- 3], [0]] [[4 / 5], [- 3 / 5]]) (grad_J [[- 3], [0]] [[3 / 5], [4 / 5]]))))
        (trace (matmul (tf_transpose (sub (grad_J [[- 3], [0]] [[4 / 5], [- 3 / 5]])
              (grad_J [[- 3], [0]] [[3 / 5], [4 / 5]])))
          (sub (grad_J [[- 3], [0]] [[4 / 5], [- 3 / 5]]) (grad_J [[- 3], [0]] [[3 / 5], [4 / 5]]))))))"
    by (simp add: grad_J_def ev)
qed

lemma example_auto_solve:
  "ESH_manifold (\<lambda>Z. Z) (\<lambda>A K. ([], [])) inv_small closed_form_gradient
     [[1, 0]] [[1]] 1 None (5 / 6) 1 (Some [[3 / 5], [4 / 5]]) =
   Done ([[4 / 5], [- 3 / 5]], [0])"
proof -
  have n: "nrows [[3 / 5], [4 / 5 :: real]] = 2"
    by (simp add: nrows_def)
  have "ESH_manifold (\<lambda>Z. Z) (\<lambda>A K. ([], [])) inv_small closed_form_gradient
     [[1, 0]] [[1]] 1 None (5 / 6) 1 (Some [[3 / 5], [4 / 5]]) =
     main_loop (plain_iteration inv_small closed_form_gradient [[1, 0]] [[1, 0], [0, 0]] (9 / 2)
        (eye (nrows [[3 / 5], [4 / 5 :: real]]))) 1 0
      \<lparr>st_W = [[3 / 5], [4 / 5]], st_lr = Some (5 / 6), st_cost_values = replicate 1 0\<rparr>"
    by (rule ESH_manifold_loop [where eigsh = "\<lambda>A K. ([], [])"])
       (simp_all add: example_affinity initialize_W_def example_auto_alpha)
  also have "\<dots> = Done ([[4 / 5], [- 3 / 5]], [0])"
    using example_auto_pass by (subst main_loop.simps) (simp add: n)
  finally show ?thesis .
qed

subsection \<open>A run of the plain solver on one feature\<close>

text \<open>
  One sample with the feature \<open>1/2\<close>, one anchor and the start \<open>W = 1\<close>: the skew matrix is
  zero, the pass leaves \<open>W\<close> where it is, and both traces of the step-size update are zero.
\<close>

lemma example_stationary_affinity:
  "get_feature_affinity (\<lambda>Z. Z) [[1 / 2]] [[1]] = [[1 / 4]]"
  by (simp add: get_feature_affinity_def ev)

lemma example_stationary_Y:
  "sub (grad_J [[- (3 / 4)]] [[1]]) (grad_J [[- (3 / 4)]] [[1]]) = [[0]]"
  by (simp add: grad_J_def ev)

lemma example_stationary_pass:
  "plain_iteration inv_small closed_form_gradient [[1 / 2]] [[1 / 4]] 1 (eye 1) 0
     \<lparr>st_W = [[1]], st_lr = Some (1 / 100), st_cost_values = [0]\<rparr> =
   Done (False, \<lparr>st_W = [[1]], st_lr = None, st_cost_values = [- 1 / 8]\<rparr>)"
proof (rule plain_iteration_eval [where c = "- 1 / 8" and G = "[[- (3 / 4)]]" and F = "[[0]]"
      and P = "[[1]]"])
  show "cost_fn [[1 / 2]] [[1]] [[1 / 4]] 1 = Some (- 1 / 8)"
    by (simp add: cost_fn_def ev)
  show "closed_form_gradient [[1 / 2]] [[1 / 4]] 1 [[1]] = [[- (3 / 4)]]"
    by (simp add: closed_form_gradient_def ev Let_def)
  show "sub (matmul [[- (3 / 4)]] (tf_transpose [[1]])) (tf_transpose (matmul [[- (3 / 4)]] (tf_transpose [[1]]))) =
        [[0]]"
    by (simp add: ev)
  show "inv_small (add (eye 1) (scale (1 / 100 * 0.5) [[0]])) = Inr [[1]]"
    by (simp add: inv_small_def ev)
  show "matmul (matmul [[1]] (sub (eye 1) (scale (1 / 100 * 0.5) [[0]]))) [[1]] = [[1]]"
    by (simp add: ev)
  show "[- 1 / 8] = [0][0 := - 1 / 8 :: real]" by simp
  show "False = (0 mod 10 = 0 \<and> (0::nat) > 0 \<and> converged [- 1 / 8] 0)" by simp
  show "None = (if False then Some (1 / 100) else
     map_option abs
      (fdiv (trace (matmul (tf_transpose (sub [[1]] [[1]]))
          (sub (grad_J [[- (3 / 4)]] [[1]]) (grad_J [[- (3 / 4)]] [[1]]))))
        (trace (matmul (tf_transpose (sub (grad_J [[- (3 / 4)]] [[1]]) (grad_J [[- (3 / 4)]] [[1]])))
          (sub (grad_J [[- (3 / 4)]] [[1]]) (grad_J [[- (3 / 4)]] [[1]]))))))"
    unfolding example_stationary_Y by (simp add: ev)
qed

lemma example_stationary_solve:
  "ESH_manifold (\<lambda>Z. Z) (\<lambda>A K. ([], [])) inv_small closed_form_gradient
     [[1 / 2]] [[1]] 1 (Some 1) (1 / 100) 1 (Some [[1]]) = Done ([[1]], [- 1 / 8])"
proof -
  have n: "nrows [[1 :: real]] = 1"
    by (simp add: nrows_def)
  have "ESH_manifold (\<lambda>Z. Z) (\<lambda>A K. ([], [])) inv_small closed_form_gradient
     [[1 / 2]] [[1]] 1 (Some 1) (1 / 100) 1 (Some [[1]]) =
     main_loop (plain_iteration inv_small closed_form_gradient [[1 / 2]] [[1 / 4]] 1
        (eye (nrows [[1 :: real]]))) 1 0
      \<lparr>st_W = [[1]], st_lr = Some (1 / 100), st_cost_values = replicate 1 0\<rparr>"
    by (rule ESH_manifold_loop [where eigsh = "\<lambda>A K. ([], [])"])
       (simp_all add: example_stationary_affinity initialize_W_def)
  also have "\<dots> = Done ([[1]], [- 1 / 8])"
    using example_stationary_pass by (subst main_loop.simps) (simp add: n)
  finally show ?thesis .
qed



subsection \<open>A run of the generalized solver on one feature\<close>

text \<open>
  One sample with the feature \<open>3/40\<close> and one anchor: the covariance is \<open>M = 1/64\<close>, the
  start is \<open>W = 8\<close>, and a skew matrix of one row is zero, so that no pass moves \<open>W\<close>: every
  cost is \<open>- 7/25\<close>, and the test at pass 10 ends the loop.
\<close>

lemma example_generalized_affinity:
  "get_feature_affinity (\<lambda>Z. Z) [[3 / 40]] [[1]] = [[9 / 1600]]"
  by (simp add: get_feature_affinity_def ev)

lemma example_covariance: "covariance_M [[3 / 40]] = [[1 / 64]]"
  by (simp add: covariance_M_def ev)

lemma sqrt_64th: "sqrt (1 / 64) = 1 / 8"
  by (rule real_sqrt_unique) (simp_all add: power2_eq_square)

lemma example_generalized_W0: "generalized_W0 [1 / 64] [[1]] = Some [[8]]"
  by (simp add: generalized_W0_def divide_columns_def sqrt_64th ev)

lemma example_generalized_pass:
  "generalized_iteration inv_small closed_form_gradient [[3 / 40]] [[9 / 1600]] 1 [[1 / 64]]
     (eye 1) k \<lparr>st_W = [[8]], st_lr = Some (1 / 100), st_cost_values = cv\<rparr> =
   Done (k mod 10 = 0 \<and> k > 0 \<and> converged (cv[k := - 7 / 25]) k,
     \<lparr>st_W = [[8]], st_lr = Some (1 / 100), st_cost_values = cv[k := - 7 / 25]\<rparr>)"
proof (rule generalized_iteration_eval [where c = "- 7 / 25" and G = "[[- 3 / 25]]"
      and F = "[[0]]" and P = "[[1]]"])
  show "cost_fn [[3 / 40]] [[8]] [[9 / 1600]] 1 = Some (- 7 / 25)"
    by (simp add: cost_fn_def ev)
  show "closed_form_gradient [[3 / 40]] [[9 / 1600]] 1 [[8]] = [[- 3 / 25]]"
    by (simp add: closed_form_gradient_def ev Let_def)
  show "matmul (sub (matmul (matmul [[- 3 / 25]] (tf_transpose [[8]])) [[1 / 64]])
          (tf_transpose (matmul (matmul [[- 3 / 25]] (tf_transpose [[8]])) [[1 / 64]]))) [[1 / 64]] =
        [[0]]"
    by (simp add: ev)
  show "inv_small (add (eye 1) (scale (1 / 100 * 0.5) [[0]])) = Inr [[1]]"
    by (simp add: inv_small_def ev)
  show "matmul (matmul [[1]] (sub (eye 1) (scale (1 / 100 * 0.5) [[0]]))) [[8]] = [[8]]"
    by (simp add: ev)
qed simp_all

lemma example_buffer:
  assumes "k < n"
  shows "(replicate k c @ replicate (n - k) (0::real))[k := c] =
     replicate (Suc k) c @ replicate (n - Suc k) 0"
proof -
  from assms obtain m where n: "n = Suc (k + m)"
    using less_imp_Suc_add by blast
  show ?thesis
    unfolding n by (simp add: list_update_append replicate_app_Cons_same)
qed

lemma example_generalized_states:
  "k \<le> 10 \<Longrightarrow>
   state_before
     (generalized_iteration inv_small closed_form_gradient [[3 / 40]] [[9 / 1600]] 1 [[1 / 64]] (eye 1))
     \<lparr>st_W = [[8]], st_lr = Some (1 / 100), st_cost_values = replicate 12 0\<rparr> k =
   Some \<lparr>st_W = [[8]], st_lr = Some (1 / 100),
          st_cost_values = replicate k (- 7 / 25) @ replicate (12 - k) 0\<rparr>"
proof (induction k)
  case 0
  show ?case by simp
next
  case (Suc k)
  then have k: "k < 10" and IH: "state_before
     (generalized_iteration inv_small closed_form_gradient [[3 / 40]] [[9 / 1600]] 1 [[1 / 64]] (eye 1))
     \<lparr>st_W = [[8]], st_lr = Some (1 / 100), st_cost_values = replicate 12 0\<rparr> k =
   Some \<lparr>st_W = [[8]], st_lr = Some (1 / 100),
          st_cost_values = replicate k (- 7 / 25) @ replicate (12 - k) 0\<rparr>"
    by simp_all
  from k have nb: "(k mod 10 = 0 \<and> k > 0 \<and> P) = False" for P
    by auto
  from k have buf: "(replicate k (- 7 / 25) @ replicate (12 - k) (0::real))[k := - 7 / 25] =
      replicate (Suc k) (- 7 / 25) @ replicate (12 - Suc k) 0"
    by (intro example_buffer) simp
  show ?case
    by (simp only: state_before.simps IH option.case example_generalized_pass nb buf
        outcome.case prod.case bool.case if_False)
qed

lemma example_generalized_last_pass:
  "generalized_iteration inv_small closed_form_gradient [[3 / 40]] [[9 / 1600]] 1 [[1 / 64]]
     (eye 1) 10
     \<lparr>st_W = [[8]], st_lr = Some (1 / 100),
        st_cost_values = replicate 10 (- 7 / 25) @ replicate (12 - 10) 0\<rparr> =
   Done (True, \<lparr>st_W = [[8]], st_lr = Some (1 / 100),
                 st_cost_values = replicate 11 (- 7 / 25) @ [0]\<rparr>)"
proof -
  have buf: "(replicate 10 (- 7 / 25) @ replicate (12 - 10) (0::real))[10 := - 7 / 25] =
      replicate 11 (- 7 / 25) @ [0]"
    using example_buffer [of 10 12 "- 7 / 25"] by (simp add: numeral_eq_Suc)
  have "converged (replicate 11 (- 7 / 25) @ [0]) 10"
    by (simp add: converged_iff nth_append)
  then show ?thesis
    by (simp only: example_generalized_pass buf) simp
qed

section \<open>The Cayley update\<close>

lemma skew_transpose:
  assumes F0: "mat n n F0"
  shows "tf_transpose (sub F0 (tf_transpose F0)) = scale (- 1) (sub F0 (tf_transpose F0))"
proof (rule mat_eqI [of n n])
  have S: "mat n n (sub F0 (tf_transpose F0))" by (rule mat_sub [OF F0])
  show "mat n n (tf_transpose (sub F0 (tf_transpose F0)))" by (rule mat_transpose [OF S])
  show "mat n n (scale (- 1) (sub F0 (tf_transpose F0)))" by (rule mat_scale [OF S])
  fix i j assume "i < n" "j < n"
  then show "ent (tf_transpose (sub F0 (tf_transpose F0))) i j =
             ent (scale (- 1) (sub F0 (tf_transpose F0))) i j"
    by (simp add: ent_transpose [OF S] ent_scale [OF S] ent_sub [OF F0] ent_transpose [OF F0])
qed

lemma cayley_factor_transpose:
  assumes F: "mat n n F" and skew: "tf_transpose F = scale (- 1) F"
  shows "tf_transpose (add (eye n) (scale c F)) = sub (eye n) (scale c F)"
proof (rule mat_eqI [of n n])
  have n: "0 < n" using F by (simp add: mat_pos)
  have I: "mat n n (eye n)" by (rule mat_eye [OF n])
  have A: "mat n n (add (eye n) (scale c F))" by (rule mat_add [OF I])
  show "mat n n (tf_transpose (add (eye n) (scale c F)))" by (rule mat_transpose [OF A])
  show "mat n n (sub (eye n) (scale c F))" by (rule mat_sub [OF I])
  fix i j assume ij: "i < n" "j < n"
  have "ent F j i = ent (tf_transpose F) i j"
    using ij by (simp add: ent_transpose [OF F])
  also have "\<dots> = - ent F i j"
    using ij by (simp add: skew ent_scale [OF F])
  finally have "ent F j i = - ent F i j" .
  with ij show "ent (tf_transpose (add (eye n) (scale c F))) i j = ent (sub (eye n) (scale c F)) i j"
    by (auto simp: ent_transpose [OF A] ent_add [OF I] ent_sub [OF I] ent_scale [OF F] ent_eye)
qed

lemma cayley_factors_commute:
  assumes S: "mat n n S"
  shows "matmul (add (eye n) S) (sub (eye n) S) = matmul (sub (eye n) S) (add (eye n) S)"
proof (rule mat_eqI [of n n])
  have n: "0 < n" using S by (simp add: mat_pos)
  have I: "mat n n (eye n)" by (rule mat_eye [OF n])
  have A: "mat n n (add (eye n) S)" by (rule mat_add [OF I])
  have B: "mat n n (sub (eye n) S)" by (rule mat_sub [OF I])
  show "mat n n (matmul (add (eye n) S) (sub (eye n) S))" by (rule mat_matmul [OF A B])
  show "mat n n (matmul (sub (eye n) S) (add (eye n) S))" by (rule mat_matmul [OF B A])
  fix i j assume ij: "i < n" "j < n"
  let ?d = "\<lambda>i k. if i = k then 1 else (0::real)"
  have 1: "(\<Sum>k<n. (?d i k + ent S i k) * (?d k j - ent S k j)) =
           (\<Sum>k<n. ?d i k * (?d k j - ent S k j)) + (\<Sum>k<n. ent S i k * ?d k j) -
           (\<Sum>k<n. ent S i k * ent S k j)"
    by (simp add: algebra_simps sum.distrib sum_subtractf)
  have 2: "(\<Sum>k<n. (?d i k - ent S i k) * (?d k j + ent S k j)) =
           (\<Sum>k<n. ?d i k * (?d k j + ent S k j)) - (\<Sum>k<n. ent S i k * ?d k j) -
           (\<Sum>k<n. ent S i k * ent S k j)"
    by (simp add: algebra_simps sum.distrib sum_subtractf)
  have 3: "(\<Sum>k<n. ?d i k * (?d k j - ent S k j)) = ?d i j - ent S i j"
    using ij(1) by (rule sum_delta_left)
  have 4: "(\<Sum>k<n. ?d i k * (?d k j + ent S k j)) = ?d i j + ent S i j"
    using ij(1) by (rule sum_delta_left)
  have 5: "(\<Sum>k<n. ent S i k * ?d k j) = ent S i j"
    using ij(2) by (rule sum_delta_right)
  have "ent (matmul (add (eye n) S) (sub (eye n) S)) i j =
        (\<Sum>k<n. (?d i k + ent S i k) * (?d k j - ent S k j))"
    using ij by (simp add: ent_matmul [OF A B] ent_add [OF I] ent_sub [OF I] ent_eye)
  moreover have "ent (matmul (sub (eye n) S) (add (eye n) S)) i j =
        (\<Sum>k<n. (?d i k - ent S i k) * (?d k j + ent S k j))"
    using ij by (simp add: ent_matmul [OF B A] ent_add [OF I] ent_sub [OF I] ent_eye)
  ultimately show "ent (matmul (add (eye n) S) (sub (eye n) S)) i j =
      ent (matmul (sub (eye n) S) (add (eye n) S)) i j"
    by (simp only: 1 2 3 4 5)
qed

lemma cayley_orthogonal:
  assumes A: "mat n n A" and B: "mat n n B" and P: "mat n n P"
    and AT: "tf_transpose A = B"
    and comm: "matmul A B = matmul B A"
    and PA: "matmul P A = eye n" and AP: "matmul A P = eye n"
  shows "matmul (tf_transpose (matmul P B)) (matmul P B) = eye n"
proof -
  have n: "0 < n" using A by (simp add: mat_pos)
  have PT: "mat n n (tf_transpose P)" by (rule mat_transpose [OF P])
  have BP: "mat n n (matmul B P)" by (rule mat_matmul [OF B P])
  have BT: "tf_transpose B = A"
    using transpose_transpose [OF A] by (simp add: AT)
  have "matmul B P = matmul (matmul P A) (matmul B P)"
    by (simp only: PA matmul_eye_left [OF BP])
  also have "\<dots> = matmul P (matmul A (matmul B P))"
    by (rule matmul_assoc [OF P A BP])
  also have "matmul A (matmul B P) = matmul (matmul A B) P"
    by (rule matmul_assoc [OF A B P, symmetric])
  also have "\<dots> = matmul (matmul B A) P"
    by (simp only: comm)
  also have "\<dots> = matmul B (matmul A P)"
    by (rule matmul_assoc [OF B A P])
  also have "\<dots> = B"
    by (simp only: AP matmul_eye_right [OF B])
  finally have swap: "matmul B P = matmul P B" .
  have "matmul (tf_transpose P) B = tf_transpose (matmul A P)"
    by (simp only: transpose_matmul [OF A P] AT)
  also have "\<dots> = eye n"
    by (simp only: AP transpose_eye [OF n])
  finally have PTB: "matmul (tf_transpose P) B = eye n" .
  have "matmul (tf_transpose (matmul P B)) (matmul P B) =
        matmul (matmul A (tf_transpose P)) (matmul B P)"
    by (simp only: transpose_matmul [OF P B] BT swap)
  also have "\<dots> = matmul A (matmul (tf_transpose P) (matmul B P))"
    by (rule matmul_assoc [OF A PT BP])
  also have "matmul (tf_transpose P) (matmul B P) = matmul (matmul (tf_transpose P) B) P"
    by (rule matmul_assoc [OF PT B P, symmetric])
  also have "\<dots> = P"
    by (simp only: PTB matmul_eye_left [OF P])
  finally show ?thesis by (simp only: AP)
qed

lemma orthogonal_keeps_orthonormal:
  assumes Q: "mat d d Q" and W: "mat d K W"
    and QQ: "matmul (tf_transpose Q) Q = eye d"
    and WW: "matmul (tf_transpose W) W = eye K"
  shows "matmul (tf_transpose (matmul Q W)) (matmul Q W) = eye K"
proof -
  have QT: "mat d d (tf_transpose Q)" by (rule mat_transpose [OF Q])
  have WT: "mat K d (tf_transpose W)" by (rule mat_transpose [OF W])
  have QW: "mat d K (matmul Q W)" by (rule mat_matmul [OF Q W])
  have "matmul (tf_transpose (matmul Q W)) (matmul Q W) =
        matmul (matmul (tf_transpose W) (tf_transpose Q)) (matmul Q W)"
    by (simp only: transpose_matmul [OF Q W])
  also have "\<dots> = matmul (tf_transpose W) (matmul (tf_transpose Q) (matmul Q W))"
    by (rule matmul_assoc [OF WT QT QW])
  also have "matmul (tf_transpose Q) (matmul Q W) = matmul (matmul (tf_transpose Q) Q) W"
    by (rule matmul_assoc [OF QT Q W, symmetric])
  also have "\<dots> = W"
    by (simp only: QQ matmul_eye_left [OF W])
  finally show ?thesis by (simp only: WW)
qed

text \<open>
  C1: in every pass of \<open>ESH_manifold\<close>, on a point \<open>W\<close> of \<open>d\<close> rows and \<open>K\<close> columns with
  \<open>W\<^sup>T W = I\<^sub>K\<close> and for any gradient \<open>G\<close> of the shape of \<open>W\<close>: the matrix
  \<open>F = G W\<^sup>T - (G W\<^sup>T)\<^sup>T\<close> is skew-symmetric, and when \<open>lin.inv\<close> returns the inverse \<open>P\<close> of
  \<open>I + (lr/2) F\<close>, the factor \<open>Q = P (I - (lr/2) F)\<close> is orthogonal, the pass stores \<open>Q W\<close>, and
  \<open>(Q W)\<^sup>T (Q W) = I\<^sub>K\<close> again. The pass has no other assignment to \<open>W\<close>.
\<close>

theorem cayley_preserves_orthonormality:
  assumes "plain_iteration inv_tf tape_gradient X A a (eye d) it s = Done (brk, s')"
    and "mat d K (st_W s)"
    and "matmul (tf_transpose (st_W s)) (st_W s) = eye K"
    and "G = tape_gradient X A a (st_W s)"
    and "mat d K G"
    and "F = sub (matmul G (tf_transpose (st_W s))) (tf_transpose (matmul G (tf_transpose (st_W s))))"
    and "st_lr s = Some lr"
    and "inv_tf (add (eye d) (scale (lr * 0.5) F)) = Inr P"
    and "mat d d P"
    and "matmul P (add (eye d) (scale (lr * 0.5) F)) = eye d"
    and "matmul (add (eye d) (scale (lr * 0.5) F)) P = eye d"
    and "Q = matmul P (sub (eye d) (scale (lr * 0.5) F))"
  shows "tf_transpose F = scale (- 1) F \<and>
         matmul (tf_transpose Q) Q = eye d \<and>
         st_W s' = matmul Q (st_W s) \<and>
         mat d K (st_W s') \<and>
         matmul (tf_transpose (st_W s')) (st_W s') = eye K"
proof -
  let ?W = "st_W s"
  let ?S = "scale (lr * 0.5) F"
  have W: "mat d K ?W" by (rule assms(2))
  have d: "0 < d" using W by (simp add: mat_pos)
  have F0: "mat d d (matmul G (tf_transpose ?W))"
    by (rule mat_matmul [OF assms(5) mat_transpose [OF W]])
  have F: "mat d d F" unfolding assms(6) by (rule mat_sub [OF F0])
  have skew: "tf_transpose F = scale (- 1) F"
    unfolding assms(6) by (rule skew_transpose [OF F0])
  have S: "mat d d ?S" by (rule mat_scale [OF F])
  have I: "mat d d (eye d)" by (rule mat_eye [OF d])
  have A: "mat d d (add (eye d) ?S)" by (rule mat_add [OF I])
  have B: "mat d d (sub (eye d) ?S)" by (rule mat_sub [OF I])
  have AT: "tf_transpose (add (eye d) ?S) = sub (eye d) ?S"
    by (rule cayley_factor_transpose [OF F skew])
  have comm: "matmul (add (eye d) ?S) (sub (eye d) ?S) = matmul (sub (eye d) ?S) (add (eye d) ?S)"
    by (rule cayley_factors_commute [OF S])
  have QQ: "matmul (tf_transpose Q) Q = eye d"
    unfolding assms(12)
    by (rule cayley_orthogonal [OF A B assms(9) AT comm assms(10) assms(11)])
  have Q: "mat d d Q"
    unfolding assms(12) by (rule mat_matmul [OF assms(9) B])
  have W': "st_W s' = matmul Q ?W"
    using plain_iteration_Done [OF assms(1)] assms(7,8)
    by (auto simp: Let_def assms(4,6,12))
  have m: "mat d K (st_W s')"
    unfolding W' by (rule mat_matmul [OF Q W])
  have o: "matmul (tf_transpose (st_W s')) (st_W s') = eye K"
    unfolding W' by (rule orthogonal_keeps_orthonormal [OF Q W QQ assms(3)])
  from skew QQ W' m o show ?thesis by blast
qed

theorem cayley_preserves_orthonormality_witness:
  "matmul (tf_transpose [[3 / 5], [4 / 5]]) [[3 / 5], [4 / 5]] = eye 1 \<and>
   matmul [[1 / 2, 1 / 2], [- 1 / 2, 1 / 2]] (add (eye 2) (scale (25 / 16 * 0.5) [[0, - 32 / 25], [32 / 25, 0]])) =
     eye 2 \<and>
   matmul (tf_transpose [[0, 1], [- 1, 0]]) [[0, 1], [- 1, 0]] = eye 2 \<and>
   matmul (tf_transpose [[4 / 5], [- 3 / 5]]) [[4 / 5], [- 3 / 5]] = eye 1"
proof -
  let ?s = "\<lparr>st_W = [[3 / 5], [4 / 5]], st_lr = Some (25 / 16), st_cost_values = [0]\<rparr>"
  let ?s' = "\<lparr>st_W = [[4 / 5], [- 3 / 5]], st_lr = Some (7 / 8), st_cost_values = [- 7 / 25]\<rparr>"
  let ?F = "[[0, - 32 / 25], [32 / 25, 0 :: real]]"
  let ?P = "[[1 / 2, 1 / 2], [- 1 / 2, 1 / 2 :: real]]"
  have 2: "mat 2 1 (st_W ?s)" by (simp add: mat_def)
  have 3: "matmul (tf_transpose (st_W ?s)) (st_W ?s) = eye 1" by (simp add: ev)
  have 4: "[[- 8 / 5], [0]] = closed_form_gradient [[1, 0]] [[1, 0], [0, 0]] 1 (st_W ?s)"
    by (simp add: closed_form_gradient_def ev Let_def)
  have 5: "mat 2 1 [[- 8 / 5], [0]]" by (simp add: mat_def)
  have 6: "?F = sub (matmul [[- 8 / 5], [0]] (tf_transpose (st_W ?s)))
      (tf_transpose (matmul [[- 8 / 5], [0]] (tf_transpose (st_W ?s))))"
    by (simp add: ev)
  have 7: "st_lr ?s = Some (25 / 16)" by simp
  have 8: "inv_small (add (eye 2) (scale (25 / 16 * 0.5) ?F)) = Inr ?P"
    by (simp add: inv_small_def ev Let_def)
  have 9: "mat 2 2 ?P" by (simp add: mat_def)
  have 10: "matmul ?P (add (eye 2) (scale (25 / 16 * 0.5) ?F)) = eye 2" by (simp add: ev)
  have 11: "matmul (add (eye 2) (scale (25 / 16 * 0.5) ?F)) ?P = eye 2" by (simp add: ev)
  have 12: "[[0, 1], [- 1, 0]] = matmul ?P (sub (eye 2) (scale (25 / 16 * 0.5) ?F))"
    by (simp add: ev)
  from cayley_preserves_orthonormality [OF example_pass 2 3 4 5 6 7 8 9 10 11 12]
  have "matmul (tf_transpose [[0, 1], [- 1, 0]]) [[0, 1], [- 1, 0]] = eye 2 \<and>
      matmul (tf_transpose (st_W ?s')) (st_W ?s') = eye 1"
    by blast
  with 3 10 show ?thesis by simp
qed

section \<open>The step size of the plain solver\<close>

text \<open>
  C2, as stated, fails: on the run on two features, the first pass leaves the step size
  \<open>7/8\<close>, computed from the one gradient \<open>(- 8/5, 0)\<close> of that pass, where the formula of the
  claim, with the gradient \<open>(- 9/5, 0)\<close> at the new point, gives \<open>1475/1753\<close>.
\<close>

theorem step_size_counterexample:
  "plain_iteration inv_small closed_form_gradient [[1, 0]] [[1, 0], [0, 0]] 1 (eye 2) 0
     \<lparr>st_W = [[3 / 5], [4 / 5]], st_lr = Some (25 / 16), st_cost_values = [0]\<rparr> =
   Done (False, \<lparr>st_W = [[4 / 5], [- 3 / 5]], st_lr = Some (7 / 8), st_cost_values = [- 7 / 25]\<rparr>) \<and>
   claimed_step_size closed_form_gradient [[1, 0]] [[1, 0], [0, 0]] 1
     [[3 / 5], [4 / 5]] [[4 / 5], [- 3 / 5]] = Some (1475 / 1753)"
proof
  show "plain_iteration inv_small closed_form_gradient [[1, 0]] [[1, 0], [0, 0]] 1 (eye 2) 0
     \<lparr>st_W = [[3 / 5], [4 / 5]], st_lr = Some (25 / 16), st_cost_values = [0]\<rparr> =
   Done (False, \<lparr>st_W = [[4 / 5], [- 3 / 5]], st_lr = Some (7 / 8), st_cost_values = [- 7 / 25]\<rparr>)"
    by (rule example_pass)
  have G: "closed_form_gradient [[1, 0]] [[1, 0], [0, 0]] 1 [[4 / 5], [- 3 / 5]] = [[- 9 / 5], [0]]"
    by (simp add: closed_form_gradient_def ev Let_def)
  have G_old: "closed_form_gradient [[1, 0]] [[1, 0], [0, 0]] 1 [[3 / 5], [4 / 5]] = [[- 8 / 5], [0]]"
    by (simp add: closed_form_gradient_def ev Let_def)
  have Y: "sub (grad_J [[- 9 / 5], [0]] [[4 / 5], [- 3 / 5]]) (grad_J [[- 8 / 5], [0]] [[3 / 5], [4 / 5]]) =
      [[47 / 125], [- 204 / 125]]"
    by (simp add: grad_J_def ev)
  have M: "sub [[4 / 5], [- 3 / 5]] [[3 / 5], [4 / 5]] = [[1 / 5], [- 7 / 5]]"
    by (simp add: ev)
  have "map_option abs
      (fdiv (trace (matmul (tf_transpose [[1 / 5], [- 7 / 5]]) [[47 / 125], [- 204 / 125]]))
        (trace (matmul (tf_transpose [[47 / 125], [- 204 / 125]]) [[47 / 125], [- 204 / 125]]))) =
      Some (1475 / 1753)"
    by (simp add: ev)
  then show "claimed_step_size closed_form_gradient [[1, 0]] [[1, 0], [0, 0]] 1
     [[3 / 5], [4 / 5]] [[4 / 5], [- 3 / 5]] = Some (1475 / 1753)"
    unfolding claimed_step_size_def Let_def G G_old Y M .
qed

text \<open>
  C2, amended: in every pass of \<open>ESH_manifold\<close> that does not leave the loop by \<open>break\<close>, the
  step size becomes \<open>|trace(M_it\<^sup>T Y_it) / trace(Y_it\<^sup>T Y_it)|\<close> with \<open>M_it = W - W_old\<close> and
  \<open>Y_it = grad_J(G, W) - grad_J(G, W_old)\<close>, where \<open>G\<close> is the one gradient of the pass,
  evaluated at \<open>W_old\<close> before the update, in both terms. A zero denominator makes the
  quotient, and the step size, a NaN.
\<close>

theorem step_size_update:
  assumes "plain_iteration inv_tf tape_gradient X A a I it s = Done (False, s')"
    and "G = tape_gradient X A a (st_W s)"
    and "M_it = sub (st_W s') (st_W s)"
    and "Y_it = sub (grad_J G (st_W s')) (grad_J G (st_W s))"
  shows "st_lr s' = (if trace (matmul (tf_transpose Y_it) Y_it) = 0 then None
                     else Some \<bar>trace (matmul (tf_transpose M_it) Y_it) /
                                 trace (matmul (tf_transpose Y_it) Y_it)\<bar>)"
  using assms(1) unfolding assms(2,3,4) plain_iteration_def Let_def
  by (auto simp: fdiv_def split: option.splits sum.splits if_splits)

theorem step_size_update_witness:
  "st_lr \<lparr>st_W = [[4 / 5], [- 3 / 5]], st_lr = Some (7 / 8), st_cost_values = [- 7 / 25]\<rparr> =
   Some \<bar>trace (matmul (tf_transpose [[1 / 5], [- 7 / 5]]) [[56 / 125], [- 192 / 125]]) /
          trace (matmul (tf_transpose [[56 / 125], [- 192 / 125]]) [[56 / 125], [- 192 / 125]])\<bar> \<and>
   \<bar>trace (matmul (tf_transpose [[1 / 5], [- 7 / 5]]) [[56 / 125], [- 192 / 125]]) /
          trace (matmul (tf_transpose [[56 / 125], [- 192 / 125]]) [[56 / 125], [- 192 / 125]])\<bar> = 7 / 8"
proof -
  have G: "[[- 8 / 5], [0]] = closed_form_gradient [[1, 0]] [[1, 0], [0, 0]] 1
      (st_W \<lparr>st_W = [[3 / 5], [4 / 5]], st_lr = Some (25 / 16), st_cost_values = [0]\<rparr>)"
    by (simp add: closed_form_gradient_def ev Let_def)
  have M: "[[1 / 5], [- 7 / 5]] =
      sub (st_W \<lparr>st_W = [[4 / 5], [- 3 / 5]], st_lr = Some (7 / 8), st_cost_values = [- 7 / 25]\<rparr>)
        (st_W \<lparr>st_W = [[3 / 5], [4 / 5]], st_lr = Some (25 / 16), st_cost_values = [0]\<rparr>)"
    by (simp add: ev)
  have Y: "[[56 / 125], [- 192 / 125]] =
      sub (grad_J [[- 8 / 5], [0]]
            (st_W \<lparr>st_W = [[4 / 5], [- 3 / 5]], st_lr = Some (7 / 8), st_cost_values = [- 7 / 25]\<rparr>))
          (grad_J [[- 8 / 5], [0]]
            (st_W \<lparr>st_W = [[3 / 5], [4 / 5]], st_lr = Some (25 / 16), st_cost_values = [0]\<rparr>))"
    by (simp add: grad_J_def ev)
  have d: "trace (matmul (tf_transpose [[56 / 125], [- 192 / 125]]) [[56 / 125], [- 192 / 125]]) = 64 / 25"
    by (simp add: ev)
  have n: "trace (matmul (tf_transpose [[1 / 5], [- 7 / 5]]) [[56 / 125], [- 192 / 125]]) = 56 / 25"
    by (simp add: ev)
  from step_size_update [OF example_pass G M Y] d n show ?thesis
    by simp
qed

section \<open>Numerical failures\<close>









section \<open>The convergence check\<close>

lemma check_iff:
  "(it mod 10 = 0 \<and> it > 0 \<and> converged cv it) \<longleftrightarrow>
   (it mod 10 = 0 \<and> 10 \<le> it \<and> cv ! (it - 10) \<noteq> 0 \<and>
    \<bar>(cv ! it - cv ! (it - 10)) / cv ! (it - 10)\<bar> < 1 / 10000)"
proof -
  have "it mod 10 = 0 \<and> it > 0 \<longleftrightarrow> it mod 10 = 0 \<and> 10 \<le> it"
    by presburger
  then show ?thesis by (auto simp: converged_iff)
qed

text \<open>
  C4: in both solvers, at every pass \<open>it\<close> that the loop reaches and that completes, the loop
  leaves by \<open>break\<close> exactly when \<open>it\<close> is one of 10, 20, 30, ... and the absolute value of
  \<open>(cost[it] - cost[it - 10]) / cost[it - 10]\<close> is below \<open>1e-4\<close> (a zero \<open>cost[it - 10]\<close>
  makes the quotient an infinity or a NaN, and the test false). When it breaks, or when
  \<open>it\<close> was the last index \<open>maxiter - 1\<close>, the solve returns normally the current \<open>W\<close> and the
  first \<open>it + 1\<close> entries of the buffer, which are \<open>maxiter\<close> entries in the second case;
  otherwise the loop goes on to pass \<open>it + 1\<close>.
\<close>

theorem convergence_check:
  assumes "solve = ESH_manifold normalize_Z eigsh inv_tf tape_gradient X Z K alpha lr maxiter W \<and>
             Wi = initialize_W eigsh W A K \<and>
             body = plain_iteration inv_tf tape_gradient X A a (eye (nrows Wi)) \<or>
           solve = ESH_generalized_manifold normalize_Z eigsh inv_tf tape_gradient X Z K alpha lr maxiter \<and>
             eigsh (covariance_M X) K = (eig_val, eig_vec) \<and>
             generalized_W0 eig_val eig_vec = Some Wi \<and>
             body = generalized_iteration inv_tf tape_gradient X A a (covariance_M X) (eye (nrows Wi))"
    and "A = get_feature_affinity normalize_Z X Z"
    and "(case alpha of None \<Rightarrow> compute_alpha X Wi A | Some a \<Rightarrow> Some a) = Some a"
    and "si = \<lparr>st_W = Wi, st_lr = Some lr, st_cost_values = replicate maxiter 0\<rparr>"
    and "it < maxiter"
    and "state_before body si it = Some s"
    and "body it s = Done (brk, s')"
  shows "(brk \<longleftrightarrow> it mod 10 = 0 \<and> 10 \<le> it \<and> st_cost_values s' ! (it - 10) \<noteq> 0 \<and>
            \<bar>(st_cost_values s' ! it - st_cost_values s' ! (it - 10)) /
              st_cost_values s' ! (it - 10)\<bar> < 1 / 10000) \<and>
         (if brk \<or> Suc it = maxiter
          then solve = Done (st_W s', take (it + 1) (st_cost_values s')) \<and>
               length (take (it + 1) (st_cost_values s')) = it + 1
          else state_before body si (Suc it) = Some s')"
proof -
  have pos: "0 < maxiter" using assms(5) by simp
  have body: "body = plain_iteration inv_tf tape_gradient X A a (eye (nrows Wi)) \<or>
      body = generalized_iteration inv_tf tape_gradient X A a (covariance_M X) (eye (nrows Wi))"
    using assms(1) by blast
  note spec = solver_body_spec [OF body]
  have run: "solve = main_loop body maxiter 0 si"
    unfolding assms(4) by (rule solve_is_loop [OF assms(1,2,3) pos])
  from spec [OF assms(7)] obtain c where
    cv': "st_cost_values s' = (st_cost_values s)[it := c]"
    and brk: "brk \<longleftrightarrow> it mod 10 = 0 \<and> it > 0 \<and> converged (st_cost_values s') it"
    by blast
  have len0: "length (st_cost_values si) = maxiter" by (simp add: assms(4))
  have "length (st_cost_values s) = length (st_cost_values si)"
    using loop_invariant [of body "\<lambda>V. cost_fn X V A a" si it s, OF spec assms(6)]
      assms(5) len0 by simp
  with cv' len0 have len: "length (st_cost_values s') = maxiter" by simp
  have 1: "brk \<longleftrightarrow> it mod 10 = 0 \<and> 10 \<le> it \<and> st_cost_values s' ! (it - 10) \<noteq> 0 \<and>
            \<bar>(st_cost_values s' ! it - st_cost_values s' ! (it - 10)) /
              st_cost_values s' ! (it - 10)\<bar> < 1 / 10000"
    using brk by (simp only: check_iff)
  have sb0: "state_before body si 0 = Some si" by simp
  have 2: "solve = Done (st_W s', take (it + 1) (st_cost_values s')) \<and>
           length (take (it + 1) (st_cost_values s')) = it + 1"
    if stop: "brk \<or> Suc it = maxiter"
  proof -
    from stop have "brk \<or> \<not> Suc it < maxiter" by auto
    from main_loop_returns [OF assms(6,7) this _ sb0 assms(5)] run len assms(5)
    show ?thesis by simp
  qed
  have 3: "state_before body si (Suc it) = Some s'" if "\<not> (brk \<or> Suc it = maxiter)"
    using that assms(6,7) by simp
  from 1 2 3 show ?thesis by presburger
qed

theorem convergence_check_witness:
  "ESH_manifold (\<lambda>Z. Z) (\<lambda>A K. ([], [])) inv_small closed_form_gradient
     [[1, 0]] [[1]] 1 (Some 1) (25 / 16) 1 (Some [[3 / 5], [4 / 5]]) =
   Done ([[4 / 5], [- 3 / 5]], [- 7 / 25]) \<and>
   ESH_generalized_manifold (\<lambda>Z. Z) (\<lambda>M K. ([1 / 64], [[1]])) inv_small closed_form_gradient
     [[3 / 40]] [[1]] 1 (Some 1) (1 / 100) 12 =
   Done ([[8]], replicate 11 (- 7 / 25))"
proof
  let ?body = "plain_iteration inv_small closed_form_gradient [[1, 0]] [[1, 0], [0, 0]] 1
      (eye (nrows [[3 / 5], [4 / 5 :: real]]))"
  let ?s0 = "\<lparr>st_W = [[3 / 5], [4 / 5]], st_lr = Some (25 / 16), st_cost_values = replicate 1 0\<rparr>"
  let ?s1 = "\<lparr>st_W = [[4 / 5], [- 3 / 5]], st_lr = Some (7 / 8), st_cost_values = [- 7 / 25]\<rparr>"
  have n: "nrows [[3 / 5], [4 / 5 :: real]] = 2"
    by (simp add: nrows_def)
  have pass: "?body 0 ?s0 = Done (False, ?s1)"
    using example_pass by (simp add: n)
  have "(False \<longleftrightarrow> (0::nat) mod 10 = 0 \<and> 10 \<le> (0::nat) \<and> st_cost_values ?s1 ! (0 - 10) \<noteq> 0 \<and>
            \<bar>(st_cost_values ?s1 ! 0 - st_cost_values ?s1 ! (0 - 10)) /
              st_cost_values ?s1 ! (0 - 10)\<bar> < 1 / 10000) \<and>
         (if False \<or> Suc 0 = 1
          then ESH_manifold (\<lambda>Z. Z) (\<lambda>A K. ([], [])) inv_small closed_form_gradient
                 [[1, 0]] [[1]] 1 (Some 1) (25 / 16) 1 (Some [[3 / 5], [4 / 5]]) =
               Done (st_W ?s1, take (0 + 1) (st_cost_values ?s1)) \<and>
               length (take (0 + 1) (st_cost_values ?s1)) = 0 + 1
          else state_before ?body ?s0 (Suc 0) = Some ?s1)"
  proof (rule convergence_check [where eig_val = "[]" and eig_vec = "[]"])
    show "ESH_manifold (\<lambda>Z. Z) (\<lambda>A K. ([], [])) inv_small closed_form_gradient
            [[1, 0]] [[1]] 1 (Some 1) (25 / 16) 1 (Some [[3 / 5], [4 / 5]]) =
          ESH_manifold (\<lambda>Z. Z) (\<lambda>A K. ([], [])) inv_small closed_form_gradient
            [[1, 0]] [[1]] 1 (Some 1) (25 / 16) 1 (Some [[3 / 5], [4 / 5]]) \<and>
          [[3 / 5], [4 / 5]] = initialize_W (\<lambda>A K. ([], [])) (Some [[3 / 5], [4 / 5]]) [[1, 0], [0, 0]] 1 \<and>
          ?body = plain_iteration inv_small closed_form_gradient [[1, 0]] [[1, 0], [0, 0]] 1
            (eye (nrows [[3 / 5], [4 / 5 :: real]])) \<or>
          ESH_manifold (\<lambda>Z. Z) (\<lambda>A K. ([], [])) inv_small closed_form_gradient
            [[1, 0]] [[1]] 1 (Some 1) (25 / 16) 1 (Some [[3 / 5], [4 / 5]]) =
          ESH_generalized_manifold (\<lambda>Z. Z) (\<lambda>A K. ([], [])) inv_small closed_form_gradient
            [[1, 0]] [[1]] 1 (Some 1) (25 / 16) 1 \<and>
          (\<lambda>A K. ([], [])) (covariance_M [[1, 0]]) 1 = ([], []) \<and>
          generalized_W0 [] [] = Some [[3 / 5], [4 / 5]] \<and>
          ?body = generalized_iteration inv_small closed_form_gradient [[1, 0]] [[1, 0], [0, 0]] 1
            (covariance_M [[1, 0]]) (eye (nrows [[3 / 5], [4 / 5 :: real]]))"
      by (simp add: initialize_W_def)
    show "[[1, 0], [0, 0]] = get_feature_affinity (\<lambda>Z. Z) [[1, 0]] [[1]]"
      by (simp add: example_affinity)
    show "(case Some 1 of None \<Rightarrow> compute_alpha [[1, 0]] [[3 / 5], [4 / 5]] [[1, 0], [0, 0]]
           | Some a \<Rightarrow> Some a) = Some 1"
      by simp
    show "?s0 = \<lparr>st_W = [[3 / 5], [4 / 5]], st_lr = Some (25 / 16), st_cost_values = replicate 1 0\<rparr>"
      by simp
    show "(0::nat) < 1" by simp
    show "state_before ?body ?s0 0 = Some ?s0" by simp
    show "?body 0 ?s0 = Done (False, ?s1)" by (rule pass)
  qed
  then show "ESH_manifold (\<lambda>Z. Z) (\<lambda>A K. ([], [])) inv_small closed_form_gradient
     [[1, 0]] [[1]] 1 (Some 1) (25 / 16) 1 (Some [[3 / 5], [4 / 5]]) =
   Done ([[4 / 5], [- 3 / 5]], [- 7 / 25])" by simp
next
  let ?solve = "ESH_generalized_manifold (\<lambda>Z. Z) (\<lambda>M K. ([1 / 64], [[1]])) inv_small
     closed_form_gradient [[3 / 40]] [[1]] 1 (Some 1) (1 / 100) 12"
  let ?body = "generalized_iteration inv_small closed_form_gradient [[3 / 40]] [[9 / 1600]] 1
      (covariance_M [[3 / 40]]) (eye (nrows [[8 :: real]]))"
  let ?s0 = "\<lparr>st_W = [[8]], st_lr = Some (1 / 100), st_cost_values = replicate 12 0\<rparr>"
  let ?s10 = "\<lparr>st_W = [[8]], st_lr = Some (1 / 100),
      st_cost_values = replicate 10 (- 7 / 25) @ replicate (12 - 10) 0\<rparr>"
  let ?s11 = "\<lparr>st_W = [[8]], st_lr = Some (1 / 100),
      st_cost_values = replicate 11 (- 7 / 25) @ [0]\<rparr>"
  have n: "nrows [[8 :: real]] = 1"
    by (simp add: nrows_def)
  have body: "?body = generalized_iteration inv_small closed_form_gradient [[3 / 40]] [[9 / 1600]] 1
      [[1 / 64]] (eye 1)"
    by (simp only: example_covariance n)
  have reach: "state_before ?body ?s0 10 = Some ?s10"
    unfolding body by (rule example_generalized_states) simp
  have pass: "?body 10 ?s10 = Done (True, ?s11)"
    unfolding body by (rule example_generalized_last_pass)
  have "(True \<longleftrightarrow> (10::nat) mod 10 = 0 \<and> 10 \<le> (10::nat) \<and> st_cost_values ?s11 ! (10 - 10) \<noteq> 0 \<and>
            \<bar>(st_cost_values ?s11 ! 10 - st_cost_values ?s11 ! (10 - 10)) /
              st_cost_values ?s11 ! (10 - 10)\<bar> < 1 / 10000) \<and>
         (if True \<or> Suc 10 = 12
          then ?solve = Done (st_W ?s11, take (10 + 1) (st_cost_values ?s11)) \<and>
               length (take (10 + 1) (st_cost_values ?s11)) = 10 + 1
          else state_before ?body ?s0 (Suc 10) = Some ?s11)"
  proof (rule convergence_check [where eig_val = "[1 / 64]" and eig_vec = "[[1]]"
        and W = None and Wi = "[[8]]" and a = 1 and alpha = "Some 1"])
    show "?solve = ESH_manifold (\<lambda>Z. Z) (\<lambda>M K. ([1 / 64], [[1]])) inv_small closed_form_gradient
            [[3 / 40]] [[1]] 1 (Some 1) (1 / 100) 12 None \<and>
          [[8]] = initialize_W (\<lambda>M K. ([1 / 64], [[1]])) None [[9 / 1600]] 1 \<and>
          ?body = plain_iteration inv_small closed_form_gradient [[3 / 40]] [[9 / 1600]] 1
            (eye (nrows [[8 :: real]])) \<or>
          ?solve = ?solve \<and>
          (\<lambda>M K. ([1 / 64], [[1]])) (covariance_M [[3 / 40]]) 1 = ([1 / 64], [[1]]) \<and>
          generalized_W0 [1 / 64] [[1]] = Some [[8]] \<and>
          ?body = ?body"
      by (simp add: example_generalized_W0)
    show "[[9 / 1600]] = get_feature_affinity (\<lambda>Z. Z) [[3 / 40]] [[1]]"
      by (simp add: example_generalized_affinity)
    show "(case Some 1 of None \<Rightarrow> compute_alpha [[3 / 40]] [[8]] [[9 / 1600]]
           | Some a \<Rightarrow> Some a) = Some 1"
      by simp
    show "?s0 = \<lparr>st_W = [[8]], st_lr = Some (1 / 100), st_cost_values = replicate 12 0\<rparr>"
      by simp
    show "(10::nat) < 12" by simp
    show "state_before ?body ?s0 10 = Some ?s10" by (rule reach)
    show "?body 10 ?s10 = Done (True, ?s11)" by (rule pass)
  qed
  then show "?solve = Done ([[8]], replicate 11 (- 7 / 25))" by simp
qed

section \<open>The cost evaluator\<close>

lemma trace_WAW:
  assumes W: "mat d K W" and A: "mat d d A"
  shows "trace (matmul (tf_transpose W) (matmul A W)) =
         (\<Sum>k<K. \<Sum>i<d. \<Sum>j<d. ent W i k * ent A i j * ent W j k)"
proof -
  have AW: "mat d K (matmul A W)" by (rule mat_matmul [OF A W])
  have T: "mat K d (tf_transpose W)" by (rule mat_transpose [OF W])
  have "trace (matmul (tf_transpose W) (matmul A W)) =
        (\<Sum>k<K. \<Sum>i<d. ent W i k * (\<Sum>j<d. ent A i j * ent W j k))"
    by (simp add: trace_square [OF mat_matmul [OF T AW]] ent_matmul [OF T AW]
        ent_transpose [OF W] ent_matmul [OF A W])
  then show ?thesis
    by (simp add: sum_distrib_left mult.assoc)
qed

lemma reg_formula:
  assumes X: "mat n d X" and W: "mat d K W"
  shows "square (norm_fro (subtract (tf_abs (matmul X W)) 1)) =
         (\<Sum>i<n. \<Sum>k<K. (\<bar>\<Sum>j<d. ent X i j * ent W j k\<bar> - 1)\<^sup>2)"
proof -
  have P: "mat n K (matmul X W)" by (rule mat_matmul [OF X W])
  show ?thesis
    by (simp add: square_norm_fro [OF mat_subtract [OF mat_tf_abs [OF P]]]
        ent_subtract [OF mat_tf_abs [OF P]] ent_tf_abs [OF P] ent_matmul [OF X W])
qed

text \<open>
  C5: for matrices of conforming shapes (\<open>X\<close> of \<open>n\<close> rows and \<open>d\<close> columns, \<open>W\<close> of \<open>d\<close>
  rows and \<open>K\<close> columns, \<open>A\<close> square of size \<open>d\<close>) and every scalar \<open>alpha\<close>, the cost
  evaluator returns exactly \<open>[- trace(W\<^sup>T A W) + 0.5 alpha \<parallel>|X W| - 1\<parallel>\<^sub>F\<^sup>2] / n\<close>, the entries written
  out as sums in \<open>cost_formula\<close>.
\<close>

theorem cost_fn_formula:
  assumes X: "mat n d X" and W: "mat d K W" and A: "mat d d A"
  shows "cost_fn X W A alpha = Some (cost_formula X W A alpha)"
proof -
  have n: "nrows X = n" "0 < n" using X by (simp_all add: mat_nrows mat_pos)
  have "cost_fn X W A alpha =
        fdiv (- trace (matmul (tf_transpose W) (matmul A W)) +
              0.5 * alpha * square (norm_fro (subtract (tf_abs (matmul X W)) 1))) (real n)"
    by (simp add: cost_fn_def n)
  also have "\<dots> = Some (cost_formula X W A alpha)"
    using n by (simp add: fdiv_def cost_formula_def trace_WAW [OF W A] reg_formula [OF X W]
        mat_nrows [OF W] mat_ncols [OF W] sum_list_upt)
  finally show ?thesis .
qed

theorem cost_fn_formula_witness:
  "mat 1 2 [[1, 0]] \<and> mat 2 1 [[3 / 5], [4 / 5]] \<and> mat 2 2 [[1, 0], [0, 0]] \<and>
   cost_fn [[1, 0]] [[3 / 5], [4 / 5]] [[1, 0], [0, 0]] 1 = Some (- 7 / 25)"
  using cost_fn_formula [of 1 2 "[[1, 0]]" 1 "[[3 / 5], [4 / 5]]" "[[1, 0], [0, 0]]" 1]
  by (simp add: mat_def cost_formula_def nrows_def ncols_def ent_def power2_eq_square)

section \<open>The regularisation weight\<close>

lemma trace_gram:
  assumes B: "mat r c B"
  shows "trace (matmul (tf_transpose B) B) = (\<Sum>j<c. \<Sum>k<r. (ent B k j)\<^sup>2)"
proof -
  have T: "mat c r (tf_transpose B)" by (rule mat_transpose [OF B])
  show ?thesis
    by (simp add: trace_square [OF mat_matmul [OF T B]] ent_matmul [OF T B]
        ent_transpose [OF B] power2_eq_square)
qed

lemma trace_gram_nonneg: "mat r c B \<Longrightarrow> 0 \<le> trace (matmul (tf_transpose B) B)"
  by (simp add: trace_gram sum_nonneg)

lemma affinity_quadratic_form:
  assumes L: "mat d m L" and W: "mat d K W"
  shows "matmul (tf_transpose W) (matmul (matmul L (tf_transpose L)) W) =
         matmul (tf_transpose (matmul (tf_transpose L) W)) (matmul (tf_transpose L) W)"
proof -
  have LT: "mat m d (tf_transpose L)" by (rule mat_transpose [OF L])
  have WT: "mat K d (tf_transpose W)" by (rule mat_transpose [OF W])
  have LTW: "mat m K (matmul (tf_transpose L) W)" by (rule mat_matmul [OF LT W])
  have "matmul (tf_transpose W) (matmul (matmul L (tf_transpose L)) W) =
        matmul (tf_transpose W) (matmul L (matmul (tf_transpose L) W))"
    by (simp only: matmul_assoc [OF L LT W])
  also have "\<dots> = matmul (matmul (tf_transpose W) L) (matmul (tf_transpose L) W)"
    by (simp only: matmul_assoc [OF WT L LTW])
  also have "matmul (tf_transpose W) L = tf_transpose (matmul (tf_transpose L) W)"
    by (simp only: transpose_matmul [OF LT W] transpose_transpose [OF L])
  finally show ?thesis .
qed

lemma main_cost_nonpos:
  assumes X: "mat n d X" and Z: "mat n m (normalize_Z Z)" and W: "mat d K W"
  shows "- trace (matmul (tf_transpose W) (matmul (get_feature_affinity normalize_Z X Z) W)) \<le> 0"
proof -
  let ?L = "matmul (tf_transpose X) (normalize_Z Z)"
  have L: "mat d m ?L" by (rule mat_matmul [OF mat_transpose [OF X] Z])
  have B: "mat m K (matmul (tf_transpose ?L) W)"
    by (rule mat_matmul [OF mat_transpose [OF L] W])
  have "get_feature_affinity normalize_Z X Z = matmul ?L (tf_transpose ?L)"
    by (simp add: get_feature_affinity_def Let_def)
  then show ?thesis
    using trace_gram_nonneg [OF B] by (simp add: affinity_quadratic_form [OF L W])
qed

lemma compute_alpha_eq:
  "compute_alpha X W A =
     (let mc = - trace (matmul (tf_transpose W) (matmul A W));
          reg = (norm_fro (subtract (tf_abs (matmul X W)) 1))\<^sup>2
      in if reg = 0 then None else Some \<bar>2 * mc / reg\<bar>)"
  by (simp add: compute_alpha_def Let_def fdiv_def square_def power2_eq_square)

lemma cost_fn_eq:
  "cost_fn X W A alpha =
     (let mc = - trace (matmul (tf_transpose W) (matmul A W));
          reg = (norm_fro (subtract (tf_abs (matmul X W)) 1))\<^sup>2
      in fdiv (mc + 0.5 * alpha * reg) (real (nrows X)))"
  by (simp add: cost_fn_def Let_def square_def power2_eq_square)

lemma recorded_cost:
  assumes "body = plain_iteration inv_tf tape_gradient X A a I \<or>
           body = generalized_iteration inv_tf tape_gradient X A a M I"
    and "state_before body si it = Some s" and "body it s = Done (brk, s')"
    and "it < length (st_cost_values si)"
  shows "cost_fn X (st_W s) A a = Some (st_cost_values s' ! it)"
proof -
  note spec = solver_body_spec [OF assms(1)]
  from spec [OF assms(3)] obtain c where c: "cost_fn X (st_W s) A a = Some c"
    and cv: "st_cost_values s' = (st_cost_values s)[it := c]"
    by blast
  have "length (st_cost_values s) = length (st_cost_values si)"
    using loop_invariant [of body "\<lambda>V. cost_fn X V A a" si it s, OF spec assms(2)] assms(4)
    by simp
  with c cv assms(4) show ?thesis by simp
qed

text \<open>
  C6: when a solve is called with \<open>alpha = None\<close> and \<open>reg = \<parallel>|X W| - 1\<parallel>\<^sub>F\<^sup>2\<close> at the initial
  \<open>W\<close> is not zero, the weight is \<open>|2 main_cost / reg|\<close> with \<open>main_cost = - trace(W\<^sup>T A W)\<close>
  at the initial \<open>W\<close>; the solve is the loop whose every pass is run with this one weight,
  and every pass records the cost computed with it.
\<close>

theorem alpha_selected_once:
  assumes "solve = ESH_manifold normalize_Z eigsh inv_tf tape_gradient X Z K None lr maxiter W \<and>
             Wi = initialize_W eigsh W A K \<and>
             body = (\<lambda>a. plain_iteration inv_tf tape_gradient X A a (eye (nrows Wi))) \<or>
           solve = ESH_generalized_manifold normalize_Z eigsh inv_tf tape_gradient X Z K None lr maxiter \<and>
             eigsh (covariance_M X) K = (eig_val, eig_vec) \<and>
             generalized_W0 eig_val eig_vec = Some Wi \<and>
             body = (\<lambda>a. generalized_iteration inv_tf tape_gradient X A a (covariance_M X)
                            (eye (nrows Wi)))"
    and "A = get_feature_affinity normalize_Z X Z"
    and "main_cost = - trace (matmul (tf_transpose Wi) (matmul A Wi))"
    and "reg = (norm_fro (subtract (tf_abs (matmul X Wi)) 1))\<^sup>2"
    and "reg \<noteq> 0"
    and "0 < maxiter"
    and "si = \<lparr>st_W = Wi, st_lr = Some lr, st_cost_values = replicate maxiter 0\<rparr>"
  shows "compute_alpha X Wi A = Some \<bar>2 * main_cost / reg\<bar> \<and>
         solve = main_loop (body (abs (2 * main_cost / reg))) maxiter 0 si \<and>
         (\<forall>it s brk s'. it < maxiter \<and> state_before (body (abs (2 * main_cost / reg))) si it = Some s \<and>
              body (abs (2 * main_cost / reg)) it s = Done (brk, s') \<longrightarrow>
            cost_fn X (st_W s) A (abs (2 * main_cost / reg)) = Some (st_cost_values s' ! it))"
proof -
  let ?a = "\<bar>2 * main_cost / reg\<bar>"
  have 1: "compute_alpha X Wi A = Some ?a"
    using assms(5) by (simp add: compute_alpha_eq Let_def assms(3,4))
  then have res: "(case None of None \<Rightarrow> compute_alpha X Wi A | Some a \<Rightarrow> Some a) = Some ?a"
    by simp
  have disj: "solve = ESH_manifold normalize_Z eigsh inv_tf tape_gradient X Z K None lr maxiter W \<and>
             Wi = initialize_W eigsh W A K \<and>
             body ?a = plain_iteration inv_tf tape_gradient X A ?a (eye (nrows Wi)) \<or>
           solve = ESH_generalized_manifold normalize_Z eigsh inv_tf tape_gradient X Z K None lr maxiter \<and>
             eigsh (covariance_M X) K = (eig_val, eig_vec) \<and>
             generalized_W0 eig_val eig_vec = Some Wi \<and>
             body ?a = generalized_iteration inv_tf tape_gradient X A ?a (covariance_M X)
                            (eye (nrows Wi))"
    using assms(1) by auto
  have 2: "solve = main_loop (body ?a) maxiter 0 si"
    unfolding assms(7) by (rule solve_is_loop [OF disj assms(2) res assms(6)])
  have b: "body ?a = plain_iteration inv_tf tape_gradient X A ?a (eye (nrows Wi)) \<or>
      body ?a = generalized_iteration inv_tf tape_gradient X A ?a (covariance_M X) (eye (nrows Wi))"
    using disj by blast
  have 3: "cost_fn X (st_W s) A ?a = Some (st_cost_values s' ! it)"
    if "it < maxiter" "state_before (body ?a) si it = Some s" "body ?a it s = Done (brk, s')"
    for it s brk s'
    using recorded_cost [OF b that(2,3)] that(1) by (simp add: assms(7))
  from 1 2 3 show ?thesis by blast
qed

theorem alpha_selected_once_witness:
  "compute_alpha [[1, 0]] [[3 / 5], [4 / 5]] [[1, 0], [0, 0]] = Some (9 / 2) \<and>
   ESH_manifold (\<lambda>Z. Z) (\<lambda>A K. ([], [])) inv_small closed_form_gradient
     [[1, 0]] [[1]] 1 None (5 / 6) 1 (Some [[3 / 5], [4 / 5]]) =
   main_loop (plain_iteration inv_small closed_form_gradient [[1, 0]] [[1, 0], [0, 0]] (9 / 2)
       (eye (nrows [[3 / 5], [4 / 5 :: real]]))) 1 0
     \<lparr>st_W = [[3 / 5], [4 / 5]], st_lr = Some (5 / 6), st_cost_values = replicate 1 0\<rparr>"
proof -
  let ?solve = "ESH_manifold (\<lambda>Z. Z) (\<lambda>A K. ([], [])) inv_small closed_form_gradient
     [[1, 0]] [[1]] 1 None (5 / 6) 1 (Some [[3 / 5], [4 / 5]])"
  let ?body = "\<lambda>a. plain_iteration inv_small closed_form_gradient [[1, 0]] [[1, 0], [0, 0]] a
      (eye (nrows [[3 / 5], [4 / 5 :: real]]))"
  have 1: "?solve = ?solve \<and>
      [[3 / 5], [4 / 5]] = initialize_W (\<lambda>A K. ([], [])) (Some [[3 / 5], [4 / 5]]) [[1, 0], [0, 0]] 1 \<and>
      ?body = ?body \<or>
      ?solve = ESH_generalized_manifold (\<lambda>Z. Z) (\<lambda>A K. ([], [])) inv_small closed_form_gradient
            [[1, 0]] [[1]] 1 None (5 / 6) 1 \<and>
      (\<lambda>A K. ([], [])) (covariance_M [[1, 0]]) 1 = ([], []) \<and>
      generalized_W0 [] [] = Some [[3 / 5], [4 / 5]] \<and>
      ?body = (\<lambda>a. generalized_iteration inv_small closed_form_gradient [[1, 0]] [[1, 0], [0, 0]] a
            (covariance_M [[1, 0]]) (eye (nrows [[3 / 5], [4 / 5 :: real]])))"
    by (simp add: initialize_W_def)
  have 2: "[[1, 0], [0, 0]] = get_feature_affinity (\<lambda>Z. Z) [[1, 0]] [[1]]"
    by (simp add: example_affinity)
  have 3: "- 9 / 25 = - trace (matmul (tf_transpose [[3 / 5], [4 / 5]])
      (matmul [[1, 0], [0, 0]] [[3 / 5], [4 / 5]]))"
    by (simp add: ev)
  have 4: "4 / 25 = (norm_fro (subtract (tf_abs (matmul [[1, 0]] [[3 / 5], [4 / 5]])) 1))\<^sup>2"
    using square_norm_fro_list [of "subtract (tf_abs (matmul [[1, 0]] [[3 / 5], [4 / 5]])) 1"]
    by (simp add: square_def power2_eq_square ev)
  have 5: "(4 / 25 :: real) \<noteq> 0" by simp
  have 6: "(0::nat) < 1" by simp
  from alpha_selected_once [where eig_val = "[]" and eig_vec = "[]" and lr = "5 / 6",
      OF 1 2 3 4 5 6 refl]
  show ?thesis by simp
qed

section \<open>The step size of the generalized solver\<close>

lemma generalized_lr_state:
  assumes "state_before (generalized_iteration inv_tf tape_gradient X A a M I) si it = Some s"
  shows "st_lr s = st_lr si"
  using assms
proof (induction it arbitrary: s)
  case 0
  then show ?case by simp
next
  case (Suc it)
  from Suc.prems obtain s1 where
    s1: "state_before (generalized_iteration inv_tf tape_gradient X A a M I) si it = Some s1"
    and b: "generalized_iteration inv_tf tape_gradient X A a M I it s1 = Done (False, s)"
    by (auto split: option.splits outcome.splits bool.splits)
  from generalized_iteration_Done [OF b] have "st_lr s = st_lr s1"
    by blast
  with Suc.IH [OF s1] show ?case by simp
qed

text \<open>
  C7: the generalized solver is the loop started with the step size \<open>lr\<close> of the caller, and
  at the start of every pass that the loop reaches, and after that pass, the step size is
  still \<open>lr\<close>: no pass updates it.
\<close>

theorem generalized_lr_fixed:
  assumes "eigsh (covariance_M X) K = (eig_val, eig_vec)"
    and "generalized_W0 eig_val eig_vec = Some Wi"
    and "A = get_feature_affinity normalize_Z X Z"
    and "(case alpha of None \<Rightarrow> compute_alpha X Wi A | Some a \<Rightarrow> Some a) = Some a"
    and "0 < maxiter"
    and "body = generalized_iteration inv_tf tape_gradient X A a (covariance_M X) (eye (nrows Wi))"
    and "si = \<lparr>st_W = Wi, st_lr = Some lr, st_cost_values = replicate maxiter 0\<rparr>"
    and "state_before body si it = Some s"
  shows "ESH_generalized_manifold normalize_Z eigsh inv_tf tape_gradient X Z K alpha lr maxiter =
           main_loop body maxiter 0 si \<and>
         st_lr s = Some lr \<and>
         (\<forall>brk s'. body it s = Done (brk, s') \<longrightarrow> st_lr s' = Some lr)"
proof -
  have 1: "ESH_generalized_manifold normalize_Z eigsh inv_tf tape_gradient X Z K alpha lr maxiter =
           main_loop body maxiter 0 si"
    unfolding assms(6,7)
    by (rule ESH_generalized_manifold_loop [where M = "covariance_M X" and X = X
          and eigsh = eigsh and K = K, OF assms(5) assms(3) refl assms(1) assms(2) assms(4)])
  have 2: "st_lr s = Some lr"
    using generalized_lr_state [of inv_tf tape_gradient X A a "covariance_M X" "eye (nrows Wi)" si it s]
      assms(8) by (simp add: assms(6,7))
  have 3: "st_lr s' = Some lr" if "body it s = Done (brk, s')" for brk s'
    using generalized_iteration_Done [of inv_tf tape_gradient X A a "covariance_M X"
        "eye (nrows Wi)" it s brk s'] that 2 by (auto simp: assms(6))
  from 1 2 3 show ?thesis by blast
qed

theorem generalized_lr_fixed_witness:
  "state_before
     (generalized_iteration inv_small closed_form_gradient [[3 / 40]] [[9 / 1600]] 1
        (covariance_M [[3 / 40]]) (eye (nrows [[8 :: real]])))
     \<lparr>st_W = [[8]], st_lr = Some (1 / 100), st_cost_values = replicate 12 0\<rparr> 3 =
   Some \<lparr>st_W = [[8]], st_lr = Some (1 / 100),
          st_cost_values = replicate 3 (- 7 / 25) @ replicate (12 - 3) 0\<rparr> \<and>
   st_lr \<lparr>st_W = [[8]], st_lr = Some (1 / 100),
          st_cost_values = replicate 3 (- 7 / 25) @ replicate (12 - 3) 0\<rparr> = Some (1 / 100)"
proof -
  let ?body = "generalized_iteration inv_small closed_form_gradient [[3 / 40]] [[9 / 1600]] 1
      (covariance_M [[3 / 40]]) (eye (nrows [[8 :: real]]))"
  let ?si = "\<lparr>st_W = [[8]], st_lr = Some (1 / 100), st_cost_values = replicate 12 0\<rparr>"
  let ?s = "\<lparr>st_W = [[8]], st_lr = Some (1 / 100),
      st_cost_values = replicate 3 (- 7 / 25) @ replicate (12 - 3) 0\<rparr>"
  have n: "nrows [[8 :: real]] = 1"
    by (simp add: nrows_def)
  have body: "?body = generalized_iteration inv_small closed_form_gradient [[3 / 40]] [[9 / 1600]] 1
      [[1 / 64]] (eye 1)"
    by (simp only: example_covariance n)
  have reach: "state_before ?body ?si 3 = Some ?s"
    unfolding body by (rule example_generalized_states) simp
  have "ESH_generalized_manifold (\<lambda>Z. Z) (\<lambda>M K. ([1 / 64], [[1]])) inv_small
          closed_form_gradient [[3 / 40]] [[1]] 1 (Some 1) (1 / 100) 12 =
          main_loop ?body 12 0 ?si \<and>
        st_lr ?s = Some (1 / 100) \<and>
        (\<forall>brk s'. ?body 3 ?s = Done (brk, s') \<longrightarrow> st_lr s' = Some (1 / 100))"
  proof (rule generalized_lr_fixed [where eig_val = "[1 / 64]" and eig_vec = "[[1]]"
        and Wi = "[[8]]" and a = 1 and alpha = "Some 1"])
    show "(\<lambda>M K. ([1 / 64], [[1]])) (covariance_M [[3 / 40]]) 1 = ([1 / 64], [[1]])"
      by simp
    show "generalized_W0 [1 / 64] [[1]] = Some [[8]]"
      by (rule example_generalized_W0)
    show "[[9 / 1600]] = get_feature_affinity (\<lambda>Z. Z) [[3 / 40]] [[1]]"
      by (simp add: example_generalized_affinity)
    show "(case Some 1 of None \<Rightarrow> compute_alpha [[3 / 40]] [[8]] [[9 / 1600]]
           | Some a \<Rightarrow> Some a) = Some 1"
      by simp
    show "(0::nat) < 12" by simp
    show "?body = ?body" by (rule refl)
    show "?si = \<lparr>st_W = [[8]], st_lr = Some (1 / 100), st_cost_values = replicate 12 0\<rparr>"
      by (rule refl)
    show "state_before ?body ?si 3 = Some ?s" by (rule reach)
  qed
  with reach show ?thesis by blast
qed

section \<open>The start of the generalized solver\<close>

lemma ent_covariance_M:
  assumes X: "mat n d X" and "a < d" and "b < d"
  shows "ent (covariance_M X) a b =
         (\<Sum>i<n. ent X i a * ent X i b) / real n + (if a = b then 0.01 else 0)"
proof -
  have XT: "mat d n (tf_transpose X)" by (rule mat_transpose [OF X])
  have G: "mat d d (matmul (tf_transpose X) X)" by (rule mat_matmul [OF XT X])
  have S: "mat d d (scale (1 / real n) (matmul (tf_transpose X) X))" by (rule mat_scale [OF G])
  have d: "0 < d" using X by (simp add: mat_pos)
  have I: "mat d d (eye d)" by (rule mat_eye [OF d])
  show ?thesis
    using assms(2,3)
    by (simp add: covariance_M_def Let_def mat_nrows [OF X] mat_ncols [OF X] ent_add [OF S]
        ent_scale [OF G] ent_scale [OF I] ent_eye ent_matmul [OF XT X] ent_transpose [OF X])
qed

lemma mat_covariance_M:
  assumes X: "mat n d X"
  shows "mat d d (covariance_M X)"
  unfolding covariance_M_def Let_def
  by (rule mat_add [OF mat_scale [OF mat_matmul [OF mat_transpose [OF X] X]]])

lemma delta_quadratic:
  fixes c :: real and v :: "nat \<Rightarrow> real"
  shows "(\<Sum>a<d. v a * (\<Sum>b<d. (if a = b then c else 0) * v b)) = c * (\<Sum>a<d. (v a)\<^sup>2)"
proof -
  have inner: "(\<Sum>b<d. (if a = b then c else 0) * v b) = c * v a" if "a < d" for a
  proof -
    have "(\<Sum>b<d. (if a = b then c else 0) * v b) = (\<Sum>b<d. (if a = b then 1 else 0) * (c * v b))"
      by (rule sum.cong) auto
    also have "\<dots> = c * v a"
      using that by (rule sum_delta_left)
    finally show ?thesis .
  qed
  have "(\<Sum>a<d. v a * (\<Sum>b<d. (if a = b then c else 0) * v b)) = (\<Sum>a<d. v a * (c * v a))"
    by (rule sum.cong) (simp_all add: inner)
  also have "\<dots> = c * (\<Sum>a<d. (v a)\<^sup>2)"
    by (simp add: sum_distrib_left power2_eq_square algebra_simps)
  finally show ?thesis .
qed

lemma covariance_quadratic:
  assumes X: "mat n d X" and V: "mat d K V" and j: "j < K"
  shows "(\<Sum>a<d. ent V a j * (\<Sum>b<d. ent (covariance_M X) a b * ent V b j)) =
         (\<Sum>i<n. (\<Sum>a<d. ent X i a * ent V a j)\<^sup>2) / real n + 0.01 * (\<Sum>a<d. (ent V a j)\<^sup>2)"
proof -
  have "(\<Sum>a<d. ent V a j * (\<Sum>b<d. ent (covariance_M X) a b * ent V b j)) =
        (\<Sum>a<d. ent V a j * (\<Sum>b<d. ((\<Sum>i<n. ent X i a * ent X i b) / real n) * ent V b j)) +
        (\<Sum>a<d. ent V a j * (\<Sum>b<d. (if a = b then 0.01 else 0) * ent V b j))"
    by (simp add: ent_covariance_M [OF X] algebra_simps sum.distrib)
  also have "(\<Sum>a<d. ent V a j * (\<Sum>b<d. (if a = b then 0.01 else 0) * ent V b j)) =
        0.01 * (\<Sum>a<d. (ent V a j)\<^sup>2)"
    by (rule delta_quadratic)
  also have "(\<Sum>a<d. ent V a j * (\<Sum>b<d. ((\<Sum>i<n. ent X i a * ent X i b) / real n) * ent V b j)) =
        (\<Sum>i<n. (\<Sum>a<d. ent X i a * ent V a j)\<^sup>2) / real n"
  proof -
    have "(\<Sum>a<d. ent V a j * (\<Sum>b<d. ((\<Sum>i<n. ent X i a * ent X i b) / real n) * ent V b j)) =
          (\<Sum>a<d. \<Sum>b<d. \<Sum>i<n. (ent X i a * ent V a j) * (ent X i b * ent V b j)) / real n"
      by (simp add: sum_distrib_left sum_distrib_right sum_divide_distrib algebra_simps)
    also have "(\<Sum>a<d. \<Sum>b<d. \<Sum>i<n. (ent X i a * ent V a j) * (ent X i b * ent V b j)) =
          (\<Sum>i<n. \<Sum>a<d. \<Sum>b<d. (ent X i a * ent V a j) * (ent X i b * ent V b j))"
    proof -
      have "(\<Sum>a<d. \<Sum>b<d. \<Sum>i<n. (ent X i a * ent V a j) * (ent X i b * ent V b j)) =
            (\<Sum>a<d. \<Sum>i<n. \<Sum>b<d. (ent X i a * ent V a j) * (ent X i b * ent V b j))"
        by (intro sum.cong refl sum.swap)
      also have "\<dots> = (\<Sum>i<n. \<Sum>a<d. \<Sum>b<d. (ent X i a * ent V a j) * (ent X i b * ent V b j))"
        by (rule sum.swap)
      finally show ?thesis .
    qed
    also have "\<dots> = (\<Sum>i<n. (\<Sum>a<d. ent X i a * ent V a j)\<^sup>2)"
      by (simp add: power2_eq_square sum_product)
    finally show ?thesis .
  qed
  finally show ?thesis by simp
qed

lemma eigenvalue_positive:
  assumes X: "mat n d X" and V: "mat d K V"
    and eigen: "matmul (covariance_M X) V = mk d K (\<lambda>i j. ev ! j * ent V i j)"
    and orth: "matmul (tf_transpose V) V = eye K"
    and j: "j < K"
  shows "0 < ev ! j"
proof -
  have M: "mat d d (covariance_M X)" by (rule mat_covariance_M [OF X])
  have VT: "mat K d (tf_transpose V)" by (rule mat_transpose [OF V])
  have n: "0 < n" using X by (simp add: mat_pos)
  have col: "(\<Sum>b<d. ent (covariance_M X) a b * ent V b j) = ev ! j * ent V a j" if "a < d" for a
  proof -
    have "ent (matmul (covariance_M X) V) a j = ent (mk d K (\<lambda>i j. ev ! j * ent V i j)) a j"
      by (simp only: eigen)
    with that j show ?thesis
      by (simp add: ent_matmul [OF M V] ent_mk)
  qed
  have "ent (matmul (tf_transpose V) V) j j = ent (eye K) j j"
    by (simp only: orth)
  with j have unit: "(\<Sum>a<d. (ent V a j)\<^sup>2) = 1"
    by (simp add: ent_matmul [OF VT V] ent_transpose [OF V] ent_eye power2_eq_square)
  have "(\<Sum>a<d. ent V a j * (\<Sum>b<d. ent (covariance_M X) a b * ent V b j)) =
        (\<Sum>a<d. ent V a j * (ev ! j * ent V a j))"
    by (rule sum.cong) (simp_all add: col)
  also have "\<dots> = ev ! j * (\<Sum>a<d. (ent V a j)\<^sup>2)"
    by (simp add: sum_distrib_left power2_eq_square algebra_simps)
  finally have "ev ! j = (\<Sum>i<n. (\<Sum>a<d. ent X i a * ent V a j)\<^sup>2) / real n + 0.01"
    using covariance_quadratic [OF X V j] by (simp add: unit)
  moreover have "0 \<le> (\<Sum>i<n. (\<Sum>a<d. ent X i a * ent V a j)\<^sup>2) / real n"
    by (intro divide_nonneg_nonneg sum_nonneg) simp_all
  ultimately show ?thesis by simp
qed

lemma mat_divide_columns: "mat d K V \<Longrightarrow> mat d K (divide_columns V c)"
  by (simp add: divide_columns_def mat_nrows mat_ncols mat_mk mat_pos)

lemma ent_divide_columns:
  "mat d K V \<Longrightarrow> a < d \<Longrightarrow> j < K \<Longrightarrow> ent (divide_columns V c) a j = ent V a j / c ! j"
  by (simp add: divide_columns_def mat_nrows mat_ncols ent_mk)

lemma rescaled_eigenvectors:
  assumes M: "mat d d M" and V: "mat d K V" and len: "length ev = K"
    and eigen: "matmul M V = mk d K (\<lambda>i j. ev ! j * ent V i j)"
    and orth: "matmul (tf_transpose V) V = eye K"
    and pos: "\<And>j. j < K \<Longrightarrow> 0 < ev ! j"
  shows "matmul (tf_transpose (divide_columns V (map sqrt ev)))
           (matmul M (divide_columns V (map sqrt ev))) = eye K"
proof (rule mat_eqI [of K K])
  let ?W = "divide_columns V (map sqrt ev)"
  have W: "mat d K ?W" by (rule mat_divide_columns [OF V])
  have WT: "mat K d (tf_transpose ?W)" by (rule mat_transpose [OF W])
  have MW: "mat d K (matmul M ?W)" by (rule mat_matmul [OF M W])
  have VT: "mat K d (tf_transpose V)" by (rule mat_transpose [OF V])
  have K: "0 < K" using V by (simp add: mat_pos)
  show "mat K K (matmul (tf_transpose ?W) (matmul M ?W))" by (rule mat_matmul [OF WT MW])
  show "mat K K (eye K)" by (rule mat_eye [OF K])
  fix i j assume i: "i < K" and j: "j < K"
  have entW: "ent ?W a j' = ent V a j' / sqrt (ev ! j')" if "a < d" "j' < K" for a j'
    using that len by (simp add: ent_divide_columns [OF V])
  have col: "(\<Sum>b<d. ent M a b * ent V b j) = ev ! j * ent V a j" if "a < d" for a
  proof -
    have "ent (matmul M V) a j = ent (mk d K (\<lambda>i j. ev ! j * ent V i j)) a j"
      by (simp only: eigen)
    with that j show ?thesis
      by (simp add: ent_matmul [OF M V] ent_mk)
  qed
  have "ent (matmul (tf_transpose V) V) i j = ent (eye K) i j"
    by (simp only: orth)
  with i j have gram: "(\<Sum>a<d. ent V a i * ent V a j) = (if i = j then 1 else 0)"
    by (simp add: ent_matmul [OF VT V] ent_transpose [OF V] ent_eye)
  have MWent: "ent (matmul M ?W) a j = ev ! j * ent V a j / sqrt (ev ! j)" if "a < d" for a
  proof -
    have "ent (matmul M ?W) a j = (\<Sum>b<d. ent M a b * (ent V b j / sqrt (ev ! j)))"
      using that j by (simp add: ent_matmul [OF M W] entW)
    also have "\<dots> = (\<Sum>b<d. ent M a b * ent V b j) / sqrt (ev ! j)"
      by (simp add: sum_divide_distrib)
    finally show ?thesis by (simp add: col [OF that])
  qed
  have "ent (matmul (tf_transpose ?W) (matmul M ?W)) i j =
        (\<Sum>a<d. (ent V a i / sqrt (ev ! i)) * (ev ! j * ent V a j / sqrt (ev ! j)))"
    using i j by (simp add: ent_matmul [OF WT MW] ent_transpose [OF W] entW MWent)
  also have "\<dots> = (\<Sum>a<d. (ent V a i * ent V a j) * (ev ! j / (sqrt (ev ! i) * sqrt (ev ! j))))"
    by (rule sum.cong) simp_all
  also have "\<dots> = (\<Sum>a<d. ent V a i * ent V a j) * (ev ! j / (sqrt (ev ! i) * sqrt (ev ! j)))"
    by (simp only: sum_distrib_right)
  also have "\<dots> = (if i = j then 1 else 0)"
    using pos [OF j] by (simp add: gram)
  finally show "ent (matmul (tf_transpose ?W) (matmul M ?W)) i j = ent (eye K) i j"
    using i j by (simp add: ent_eye)
qed

text \<open>
  C8: the generalized solver starts from \<open>M = X\<^sup>T X / n + 0.01 I\<close> and from
  \<open>W = eig_vec / sqrt(eig_val)\<close>, column \<open>j\<close> of the eigenvector matrix divided by the root of
  eigenvalue \<open>j\<close>. When \<open>eigsh\<close> returns exact eigenpairs of \<open>M\<close> with orthonormal
  eigenvectors, the eigenvalues are positive, the division is defined, the loop starts at this
  \<open>W\<close>, and \<open>W\<^sup>T M W = I\<^sub>K\<close>.
\<close>

theorem generalized_start_M_orthonormal:
  assumes "mat n d X"
    and "eigsh (covariance_M X) K = (eig_val, eig_vec)"
    and "mat d K eig_vec" and "length eig_val = K"
    and "matmul (covariance_M X) eig_vec = mk d K (\<lambda>i j. eig_val ! j * ent eig_vec i j)"
    and "matmul (tf_transpose eig_vec) eig_vec = eye K"
    and "Wi = divide_columns eig_vec (map sqrt eig_val)"
    and "A = get_feature_affinity normalize_Z X Z"
    and "0 < maxiter"
  shows "(\<forall>a<d. \<forall>b<d. ent (covariance_M X) a b =
            (\<Sum>i<n. ent X i a * ent X i b) / real n + (if a = b then 0.01 else 0)) \<and>
         generalized_W0 eig_val eig_vec = Some Wi \<and>
         ESH_generalized_manifold normalize_Z eigsh inv_tf tape_gradient X Z K (Some a) lr maxiter =
           main_loop (generalized_iteration inv_tf tape_gradient X A a (covariance_M X)
                        (eye (nrows Wi))) maxiter 0
             \<lparr>st_W = Wi, st_lr = Some lr, st_cost_values = replicate maxiter 0\<rparr> \<and>
         matmul (tf_transpose Wi) (matmul (covariance_M X) Wi) = eye K"
proof -
  have M: "mat d d (covariance_M X)" by (rule mat_covariance_M [OF assms(1)])
  have pos: "0 < eig_val ! j" if "j < K" for j
    by (rule eigenvalue_positive [OF assms(1,3,5,6) that])
  have 1: "\<forall>a<d. \<forall>b<d. ent (covariance_M X) a b =
            (\<Sum>i<n. ent X i a * ent X i b) / real n + (if a = b then 0.01 else 0)"
    using ent_covariance_M [OF assms(1)] by blast
  have "list_all (\<lambda>v. 0 < v) eig_val"
    using pos assms(4) by (simp add: list_all_length)
  then have 2: "generalized_W0 eig_val eig_vec = Some Wi"
    by (simp add: generalized_W0_def assms(7))
  have res: "(case Some a of None \<Rightarrow> compute_alpha X Wi A | Some a \<Rightarrow> Some a) = Some a"
    by simp
  have 3: "ESH_generalized_manifold normalize_Z eigsh inv_tf tape_gradient X Z K (Some a) lr maxiter =
           main_loop (generalized_iteration inv_tf tape_gradient X A a (covariance_M X)
                        (eye (nrows Wi))) maxiter 0
             \<lparr>st_W = Wi, st_lr = Some lr, st_cost_values = replicate maxiter 0\<rparr>"
    by (rule ESH_generalized_manifold_loop [where M = "covariance_M X" and X = X
          and eigsh = eigsh and K = K, OF assms(9) assms(8) refl assms(2) 2 res])
  have 4: "matmul (tf_transpose Wi) (matmul (covariance_M X) Wi) = eye K"
    unfolding assms(7) by (rule rescaled_eigenvectors [OF M assms(3,4,5,6) pos])
  from 1 2 3 4 show ?thesis by (intro conjI)
qed

theorem generalized_start_M_orthonormal_witness:
  "covariance_M [[3 / 40, 0]] = [[1 / 64, 0], [0, 1 / 100]] \<and>
   generalized_W0 [1 / 64] [[1], [0]] = Some [[8], [0]] \<and>
   matmul (tf_transpose [[8], [0]]) (matmul (covariance_M [[3 / 40, 0]]) [[8], [0]]) = eye 1"
proof -
  have M: "covariance_M [[3 / 40, 0]] = [[1 / 64, 0], [0, 1 / 100]]"
    by (simp add: covariance_M_def ev)
  have 1: "mat 1 2 [[3 / 40, 0]]" by (simp add: mat_def)
  have 2: "(\<lambda>M K. ([1 / 64], [[1], [0]])) (covariance_M [[3 / 40, 0]]) 1 = ([1 / 64], [[1], [0]])"
    by simp
  have 3: "mat 2 1 [[1], [0]]" by (simp add: mat_def)
  have 4: "length [1 / 64 :: real] = 1" by simp
  have 5: "matmul (covariance_M [[3 / 40, 0]]) [[1], [0]] =
      mk 2 1 (\<lambda>i j. [1 / 64] ! j * ent [[1], [0]] i j)"
    unfolding M by (simp add: ev)
  have 6: "matmul (tf_transpose [[1], [0]]) [[1], [0]] = eye 1"
    by (simp add: ev)
  have 7: "[[8], [0]] = divide_columns [[1], [0]] (map sqrt [1 / 64])"
    by (simp add: divide_columns_def sqrt_64th ev)
  from generalized_start_M_orthonormal [where eigsh = "\<lambda>M K. ([1 / 64], [[1], [0]])"
      and normalize_Z = "\<lambda>Z. Z" and Z = "[[1]]" and maxiter = 1, OF 1 2 3 4 5 6 7 refl]
  have "generalized_W0 [1 / 64] [[1], [0]] = Some [[8], [0]] \<and>
      matmul (tf_transpose [[8], [0]]) (matmul (covariance_M [[3 / 40, 0]]) [[8], [0]]) = eye 1"
    by simp
  with M show ?thesis by blast
qed

section \<open>The first recorded cost\<close>

lemma first_entry_cost:
  assumes "solve = ESH_manifold normalize_Z eigsh inv_tf tape_gradient X Z K alpha lr maxiter W \<and>
             Wi = initialize_W eigsh W A K \<and>
             body = plain_iteration inv_tf tape_gradient X A a (eye (nrows Wi)) \<or>
           solve = ESH_generalized_manifold normalize_Z eigsh inv_tf tape_gradient X Z K alpha lr maxiter \<and>
             eigsh (covariance_M X) K = (eig_val, eig_vec) \<and>
             generalized_W0 eig_val eig_vec = Some Wi \<and>
             body = generalized_iteration inv_tf tape_gradient X A a (covariance_M X) (eye (nrows Wi))"
    and "A = get_feature_affinity normalize_Z X Z"
    and "(case alpha of None \<Rightarrow> compute_alpha X Wi A | Some a \<Rightarrow> Some a) = Some a"
    and "solve = Done (W', tr)"
  shows "cost_fn X Wi A a = Some (tr ! 0)"
proof -
  let ?si = "\<lparr>st_W = Wi, st_lr = Some lr, st_cost_values = replicate maxiter 0\<rparr>"
  have slv: "solve = ESH_manifold normalize_Z eigsh inv_tf tape_gradient X Z K alpha lr maxiter W \<or>
      solve = ESH_generalized_manifold normalize_Z eigsh inv_tf tape_gradient X Z K alpha lr maxiter"
    using assms(1) by blast
  have pos: "0 < maxiter" by (rule solve_Done_pos [OF slv assms(4)])
  have body: "body = plain_iteration inv_tf tape_gradient X A a (eye (nrows Wi)) \<or>
      body = generalized_iteration inv_tf tape_gradient X A a (covariance_M X) (eye (nrows Wi))"
    using assms(1) by blast
  note spec = solver_body_spec [OF body]
  have run: "main_loop body maxiter 0 ?si = Done (W', tr)"
    using solve_is_loop [OF assms(1,2,3) pos] assms(4) by simp
  have len: "length (st_cost_values ?si) = maxiter" by simp
  from main_loop_result [of body "\<lambda>V. cost_fn X V A a", OF spec run len pos]
  obtain it where "\<forall>j\<le>it. \<exists>sj. state_before body ?si j = Some sj \<and>
        cost_fn X (st_W sj) A a = Some (tr ! j)"
    by blast
  then have "\<exists>sj. state_before body ?si 0 = Some sj \<and> cost_fn X (st_W sj) A a = Some (tr ! 0)"
    by blast
  then show ?thesis by simp
qed

lemma half_abs_ratio:
  fixes mc reg :: real
  assumes "0 < reg"
  shows "0.5 * \<bar>2 * mc / reg\<bar> * reg = \<bar>mc\<bar>"
proof -
  have "\<bar>2 * mc / reg\<bar> = 2 * \<bar>mc\<bar> / reg"
    using assms by (simp add: abs_mult)
  then show ?thesis using assms by simp
qed

text \<open>
  C9: for every solve with \<open>alpha = None\<close> that returns, on inputs of conforming shapes, with
  \<open>main_cost = - trace(W\<^sup>T A W)\<close> and \<open>reg = \<parallel>|X W| - 1\<parallel>\<^sub>F\<^sup>2\<close> at the initial \<open>W\<close>: \<open>reg\<close> is
  positive, the first entry of the trace is \<open>(main_cost + |main_cost|) / n\<close>, and
  \<open>main_cost \<le> 0\<close> because the affinity is \<open>L L\<^sup>T\<close>, so that the first entry is exactly \<open>0\<close>.
\<close>

theorem first_cost_zero:
  assumes "solve = ESH_manifold normalize_Z eigsh inv_tf tape_gradient X Z K None lr maxiter W \<and>
             Wi = initialize_W eigsh W A K \<or>
           solve = ESH_generalized_manifold normalize_Z eigsh inv_tf tape_gradient X Z K None lr maxiter \<and>
             eigsh (covariance_M X) K = (eig_val, eig_vec) \<and>
             generalized_W0 eig_val eig_vec = Some Wi"
    and "A = get_feature_affinity normalize_Z X Z"
    and "mat n d X" and "mat n m (normalize_Z Z)" and "mat d k Wi"
    and "main_cost = - trace (matmul (tf_transpose Wi) (matmul A Wi))"
    and "reg = (norm_fro (subtract (tf_abs (matmul X Wi)) 1))\<^sup>2"
    and "solve = Done (W', tr)"
  shows "0 < reg \<and> tr ! 0 = (main_cost + \<bar>main_cost\<bar>) / real n \<and> main_cost \<le> 0 \<and> tr ! 0 = 0"
proof -
  from solve_None_alpha [OF assms(1,2,8)] obtain a where a: "compute_alpha X Wi A = Some a"
    by blast
  then have reg0: "reg \<noteq> 0" and a_eq: "a = \<bar>2 * main_cost / reg\<bar>"
    by (auto simp: compute_alpha_eq Let_def assms(6,7) split: if_splits)
  have "0 \<le> reg" by (simp add: assms(7))
  with reg0 have reg: "0 < reg" by simp
  have res: "(case None of None \<Rightarrow> compute_alpha X Wi A | Some a \<Rightarrow> Some a) = Some a"
    using a by simp
  have "cost_fn X Wi A a = Some (tr ! 0)"
    using assms(1)
  proof (elim disjE conjE)
    assume 1: "solve = ESH_manifold normalize_Z eigsh inv_tf tape_gradient X Z K None lr maxiter W"
      and 2: "Wi = initialize_W eigsh W A K"
    let ?b = "plain_iteration inv_tf tape_gradient X A a (eye (nrows Wi))"
    have "solve = ESH_manifold normalize_Z eigsh inv_tf tape_gradient X Z K None lr maxiter W \<and>
             Wi = initialize_W eigsh W A K \<and>
             ?b = plain_iteration inv_tf tape_gradient X A a (eye (nrows Wi)) \<or>
           solve = ESH_generalized_manifold normalize_Z eigsh inv_tf tape_gradient X Z K None lr maxiter \<and>
             eigsh (covariance_M X) K = (eig_val, eig_vec) \<and>
             generalized_W0 eig_val eig_vec = Some Wi \<and>
             ?b = generalized_iteration inv_tf tape_gradient X A a (covariance_M X) (eye (nrows Wi))"
      using 1 2 by blast
    from first_entry_cost [OF this assms(2) res assms(8)] show ?thesis .
  next
    assume 1: "solve = ESH_generalized_manifold normalize_Z eigsh inv_tf tape_gradient X Z K None lr maxiter"
      and 2: "eigsh (covariance_M X) K = (eig_val, eig_vec)"
      and 3: "generalized_W0 eig_val eig_vec = Some Wi"
    let ?b = "generalized_iteration inv_tf tape_gradient X A a (covariance_M X) (eye (nrows Wi))"
    have "solve = ESH_manifold normalize_Z eigsh inv_tf tape_gradient X Z K None lr maxiter W \<and>
             Wi = initialize_W eigsh W A K \<and>
             ?b = plain_iteration inv_tf tape_gradient X A a (eye (nrows Wi)) \<or>
           solve = ESH_generalized_manifold normalize_Z eigsh inv_tf tape_gradient X Z K None lr maxiter \<and>
             eigsh (covariance_M X) K = (eig_val, eig_vec) \<and>
             generalized_W0 eig_val eig_vec = Some Wi \<and>
             ?b = generalized_iteration inv_tf tape_gradient X A a (covariance_M X) (eye (nrows Wi))"
      using 1 2 3 by blast
    from first_entry_cost [OF this assms(2) res assms(8)] show ?thesis .
  qed
  moreover have "nrows X = n" "0 < n"
    using assms(3) by (simp_all add: mat_nrows mat_pos)
  ultimately have "tr ! 0 = (main_cost + 0.5 * a * reg) / real n"
    by (simp add: cost_fn_eq Let_def fdiv_def assms(6,7))
  then have first: "tr ! 0 = (main_cost + \<bar>main_cost\<bar>) / real n"
    by (simp only: a_eq half_abs_ratio [OF reg])
  have neg: "main_cost \<le> 0"
    unfolding assms(6) assms(2) by (rule main_cost_nonpos [where normalize_Z = normalize_Z and Z = Z, OF assms(3,4,5)])
  then have "tr ! 0 = 0" using first by simp
  with reg first neg show ?thesis by blast
qed

theorem first_cost_zero_witness:
  "ESH_manifold (\<lambda>Z. Z) (\<lambda>A K. ([], [])) inv_small closed_form_gradient
     [[1, 0]] [[1]] 1 None (5 / 6) 1 (Some [[3 / 5], [4 / 5]]) =
   Done ([[4 / 5], [- 3 / 5]], [0]) \<and>
   mat 1 2 [[1, 0]] \<and> mat 1 1 [[1]] \<and> mat 2 1 [[3 / 5], [4 / 5]] \<and>
   [0] ! 0 = (- 9 / 25 + \<bar>- 9 / 25\<bar>) / real (1::nat) \<and> [0 :: real] ! 0 = 0"
proof -
  let ?solve = "ESH_manifold (\<lambda>Z. Z) (\<lambda>A K. ([], [])) inv_small closed_form_gradient
     [[1, 0]] [[1]] 1 None (5 / 6) 1 (Some [[3 / 5], [4 / 5]])"
  have 1: "?solve = ?solve \<and>
      [[3 / 5], [4 / 5]] = initialize_W (\<lambda>A K. ([], [])) (Some [[3 / 5], [4 / 5]]) [[1, 0], [0, 0]] 1 \<or>
      ?solve = ESH_generalized_manifold (\<lambda>Z. Z) (\<lambda>A K. ([], [])) inv_small closed_form_gradient
            [[1, 0]] [[1]] 1 None (5 / 6) 1 \<and>
      (\<lambda>A K. ([], [])) (covariance_M [[1, 0]]) 1 = ([], []) \<and>
      generalized_W0 [] [] = Some [[3 / 5], [4 / 5]]"
    by (simp add: initialize_W_def)
  have 2: "[[1, 0], [0, 0]] = get_feature_affinity (\<lambda>Z. Z) [[1, 0]] [[1]]"
    by (simp add: example_affinity)
  have 3: "mat 1 2 [[1, 0]]" by (simp add: mat_def)
  have 4: "mat 1 1 ((\<lambda>Z. Z) [[1]])" by (simp add: mat_def)
  have 5: "mat 2 1 [[3 / 5], [4 / 5]]" by (simp add: mat_def)
  have 6: "- 9 / 25 = - trace (matmul (tf_transpose [[3 / 5], [4 / 5]])
      (matmul [[1, 0], [0, 0]] [[3 / 5], [4 / 5]]))"
    by (simp add: ev)
  have 7: "4 / 25 = (norm_fro (subtract (tf_abs (matmul [[1, 0]] [[3 / 5], [4 / 5]])) 1))\<^sup>2"
    using square_norm_fro_list [of "subtract (tf_abs (matmul [[1, 0]] [[3 / 5], [4 / 5]])) 1"]
    by (simp add: square_def power2_eq_square ev)
  from first_cost_zero [where eig_val = "[]" and eig_vec = "[]",
      OF 1 2 3 4 5 6 7 example_auto_solve]
  show ?thesis using example_auto_solve 3 4 5 by simp
qed

section \<open>The trace and the returned point\<close>

text \<open>
  C10, as stated, fails: on the run on one feature with \<open>maxiter = 1\<close> the final update
  leaves \<open>W\<close> where it is, and the one entry of the returned trace is the cost of the
  returned \<open>W\<close>.
\<close>

theorem trace_lags_counterexample:
  "ESH_manifold (\<lambda>Z. Z) (\<lambda>A K. ([], [])) inv_small closed_form_gradient
     [[1 / 2]] [[1]] 1 (Some 1) (1 / 100) 1 (Some [[1]]) = Done ([[1]], [- 1 / 8]) \<and>
   cost_fn [[1 / 2]] [[1]] (get_feature_affinity (\<lambda>Z. Z) [[1 / 2]] [[1]]) 1 = Some (- 1 / 8) \<and>
   - 1 / 8 \<in> set [- 1 / 8 :: real]"
proof (intro conjI)
  show "cost_fn [[1 / 2]] [[1]] (get_feature_affinity (\<lambda>Z. Z) [[1 / 2]] [[1]]) 1 = Some (- 1 / 8)"
    unfolding example_stationary_affinity by (simp add: cost_fn_def ev)
qed (rule example_stationary_solve, simp)

text \<open>
  C10, amended: for every run of either solver that returns, with the trace \<open>tr\<close> and the
  point \<open>W'\<close>: every entry \<open>j\<close> of the trace is the cost at the point at which pass \<open>j\<close>
  starts; the last entry is the cost at the point \<open>st_W s\<close> at which the final pass starts;
  and \<open>W'\<close> is that point after the update \<open>Q W\<close> of the final pass, \<open>Q\<close> being the Cayley
  factor of that pass. The cost is not evaluated again after the final update.
\<close>

theorem trace_lags_returned_W:
  assumes "solve = ESH_manifold normalize_Z eigsh inv_tf tape_gradient X Z K alpha lr maxiter W \<and>
             Wi = initialize_W eigsh W A K \<and>
             body = plain_iteration inv_tf tape_gradient X A a (eye (nrows Wi)) \<and>
             skew = (\<lambda>G V. sub (matmul G (tf_transpose V)) (tf_transpose (matmul G (tf_transpose V)))) \<or>
           solve = ESH_generalized_manifold normalize_Z eigsh inv_tf tape_gradient X Z K alpha lr maxiter \<and>
             eigsh (covariance_M X) K = (eig_val, eig_vec) \<and>
             generalized_W0 eig_val eig_vec = Some Wi \<and>
             body = generalized_iteration inv_tf tape_gradient X A a (covariance_M X) (eye (nrows Wi)) \<and>
             skew = (\<lambda>G V. matmul (sub (matmul (matmul G (tf_transpose V)) (covariance_M X))
                        (tf_transpose (matmul (matmul G (tf_transpose V)) (covariance_M X))))
                      (covariance_M X))"
    and "A = get_feature_affinity normalize_Z X Z"
    and "(case alpha of None \<Rightarrow> compute_alpha X Wi A | Some a \<Rightarrow> Some a) = Some a"
    and "si = \<lparr>st_W = Wi, st_lr = Some lr, st_cost_values = replicate maxiter 0\<rparr>"
    and "solve = Done (W', tr)"
  shows "\<exists>it s brk s'. length tr = it + 1 \<and> state_before body si it = Some s \<and>
           body it s = Done (brk, s') \<and>
           cost_fn X (st_W s) A a = Some (last tr) \<and>
           W' = st_W s' \<and>
           (\<exists>lr' P. st_lr s = Some lr' \<and>
              inv_tf (add (eye (nrows Wi))
                (scale (lr' * 0.5) (skew (tape_gradient X A a (st_W s)) (st_W s)))) = Inr P \<and>
              W' = matmul (matmul P (sub (eye (nrows Wi))
                     (scale (lr' * 0.5) (skew (tape_gradient X A a (st_W s)) (st_W s))))) (st_W s)) \<and>
           (\<forall>j<length tr. \<exists>sj. state_before body si j = Some sj \<and>
              cost_fn X (st_W sj) A a = Some (tr ! j))"
proof -
  have slv: "solve = ESH_manifold normalize_Z eigsh inv_tf tape_gradient X Z K alpha lr maxiter W \<or>
      solve = ESH_generalized_manifold normalize_Z eigsh inv_tf tape_gradient X Z K alpha lr maxiter"
    using assms(1) by blast
  have pos: "0 < maxiter" by (rule solve_Done_pos [OF slv assms(5)])
  have disj: "solve = ESH_manifold normalize_Z eigsh inv_tf tape_gradient X Z K alpha lr maxiter W \<and>
             Wi = initialize_W eigsh W A K \<and>
             body = plain_iteration inv_tf tape_gradient X A a (eye (nrows Wi)) \<or>
           solve = ESH_generalized_manifold normalize_Z eigsh inv_tf tape_gradient X Z K alpha lr maxiter \<and>
             eigsh (covariance_M X) K = (eig_val, eig_vec) \<and>
             generalized_W0 eig_val eig_vec = Some Wi \<and>
             body = generalized_iteration inv_tf tape_gradient X A a (covariance_M X) (eye (nrows Wi))"
    using assms(1) by blast
  have body: "body = plain_iteration inv_tf tape_gradient X A a (eye (nrows Wi)) \<or>
      body = generalized_iteration inv_tf tape_gradient X A a (covariance_M X) (eye (nrows Wi))"
    using assms(1) by blast
  note spec = solver_body_spec [OF body]
  have run: "main_loop body maxiter 0 si = Done (W', tr)"
    using solve_is_loop [OF disj assms(2,3) pos] assms(4,5) by simp
  have len: "length (st_cost_values si) = maxiter" by (simp add: assms(4))
  from main_loop_result [of body "\<lambda>V. cost_fn X V A a", OF spec run len pos]
  obtain it s brk s' where l: "length tr = Suc it"
    and sb: "state_before body si it = Some s" and b: "body it s = Done (brk, s')"
    and W': "W' = st_W s'"
    and entries: "\<forall>j\<le>it. \<exists>sj. state_before body si j = Some sj \<and>
        cost_fn X (st_W sj) A a = Some (tr ! j)"
    by blast
  from entries sb have "cost_fn X (st_W s) A a = Some (tr ! it)"
    by auto
  moreover from l have "tr \<noteq> []" by auto
  with l have "tr ! it = last tr"
    by (simp add: last_conv_nth)
  ultimately have lastc: "cost_fn X (st_W s) A a = Some (last tr)" by simp
  have cayley: "\<exists>lr' P. st_lr s = Some lr' \<and>
              inv_tf (add (eye (nrows Wi))
                (scale (lr' * 0.5) (skew (tape_gradient X A a (st_W s)) (st_W s)))) = Inr P \<and>
              W' = matmul (matmul P (sub (eye (nrows Wi))
                     (scale (lr' * 0.5) (skew (tape_gradient X A a (st_W s)) (st_W s))))) (st_W s)"
    using assms(1)
  proof (elim disjE conjE)
    assume "body = plain_iteration inv_tf tape_gradient X A a (eye (nrows Wi))"
      and sk: "skew = (\<lambda>G V. sub (matmul G (tf_transpose V)) (tf_transpose (matmul G (tf_transpose V))))"
    with b have "plain_iteration inv_tf tape_gradient X A a (eye (nrows Wi)) it s = Done (brk, s')"
      by simp
    from plain_iteration_Done [OF this] show ?thesis
      unfolding sk W' Let_def by blast
  next
    assume "body = generalized_iteration inv_tf tape_gradient X A a (covariance_M X) (eye (nrows Wi))"
      and sk: "skew = (\<lambda>G V. matmul (sub (matmul (matmul G (tf_transpose V)) (covariance_M X))
                        (tf_transpose (matmul (matmul G (tf_transpose V)) (covariance_M X))))
                      (covariance_M X))"
    with b have "generalized_iteration inv_tf tape_gradient X A a (covariance_M X)
        (eye (nrows Wi)) it s = Done (brk, s')"
      by simp
    from generalized_iteration_Done [OF this] show ?thesis
      unfolding sk W' Let_def by blast
  qed
  have all: "\<forall>j<length tr. \<exists>sj. state_before body si j = Some sj \<and>
              cost_fn X (st_W sj) A a = Some (tr ! j)"
    using entries l by (simp add: less_Suc_eq_le)
  have l': "length tr = it + 1" using l by simp
  show ?thesis
    by (rule exI [of _ it], rule exI [of _ s], rule exI [of _ brk], rule exI [of _ s'])
       (intro conjI l' sb b lastc W' cayley all)
qed

theorem trace_lags_returned_W_witness:
  "ESH_manifold (\<lambda>Z. Z) (\<lambda>A K. ([], [])) inv_small closed_form_gradient
     [[1, 0]] [[1]] 1 (Some 1) (25 / 16) 1 (Some [[3 / 5], [4 / 5]]) =
   Done ([[4 / 5], [- 3 / 5]], [- 7 / 25]) \<and>
   cost_fn [[1, 0]] [[3 / 5], [4 / 5]] [[1, 0], [0, 0]] 1 = Some (last [- 7 / 25]) \<and>
   cost_fn [[1, 0]] [[4 / 5], [- 3 / 5]] [[1, 0], [0, 0]] 1 = Some (- 31 / 50)"
proof -
  let ?solve = "ESH_manifold (\<lambda>Z. Z) (\<lambda>A K. ([], [])) inv_small closed_form_gradient
     [[1, 0]] [[1]] 1 (Some 1) (25 / 16) 1 (Some [[3 / 5], [4 / 5]])"
  let ?body = "plain_iteration inv_small closed_form_gradient [[1, 0]] [[1, 0], [0, 0]] 1
      (eye (nrows [[3 / 5], [4 / 5 :: real]]))"
  let ?si = "\<lparr>st_W = [[3 / 5], [4 / 5]], st_lr = Some (25 / 16), st_cost_values = replicate 1 0\<rparr>"
  let ?skew = "\<lambda>G V. sub (matmul G (tf_transpose V)) (tf_transpose (matmul G (tf_transpose V)))"
  have 1: "?solve = ?solve \<and>
      [[3 / 5], [4 / 5]] = initialize_W (\<lambda>A K. ([], [])) (Some [[3 / 5], [4 / 5]]) [[1, 0], [0, 0]] 1 \<and>
      ?body = ?body \<and> ?skew = ?skew \<or>
      ?solve = ESH_generalized_manifold (\<lambda>Z. Z) (\<lambda>A K. ([], [])) inv_small closed_form_gradient
            [[1, 0]] [[1]] 1 (Some 1) (25 / 16) 1 \<and>
      (\<lambda>A K. ([], [])) (covariance_M [[1, 0]]) 1 = ([], []) \<and>
      generalized_W0 [] [] = Some [[3 / 5], [4 / 5]] \<and>
      ?body = generalized_iteration inv_small closed_form_gradient [[1, 0]] [[1, 0], [0, 0]] 1
            (covariance_M [[1, 0]]) (eye (nrows [[3 / 5], [4 / 5 :: real]])) \<and>
      ?skew = (\<lambda>G V. matmul (sub (matmul (matmul G (tf_transpose V)) (covariance_M [[1, 0]]))
                        (tf_transpose (matmul (matmul G (tf_transpose V)) (covariance_M [[1, 0]]))))
                      (covariance_M [[1, 0]]))"
    by (simp add: initialize_W_def)
  have 2: "[[1, 0], [0, 0]] = get_feature_affinity (\<lambda>Z. Z) [[1, 0]] [[1]]"
    by (simp add: example_affinity)
  have 3: "(case Some 1 of None \<Rightarrow> compute_alpha [[1, 0]] [[3 / 5], [4 / 5]] [[1, 0], [0, 0]]
           | Some a \<Rightarrow> Some a) = Some 1"
    by simp
  from trace_lags_returned_W [where eig_val = "[]" and eig_vec = "[]", OF 1 2 3 refl example_plain_solve]
  obtain it s where "length [- 7 / 25 :: real] = it + 1" and "state_before ?body ?si it = Some s"
    and c: "cost_fn [[1, 0]] (st_W s) [[1, 0], [0, 0]] 1 = Some (last [- 7 / 25])"
    by blast
  then have "it = 0" and "s = ?si" by simp_all
  with c have "cost_fn [[1, 0]] [[3 / 5], [4 / 5]] [[1, 0], [0, 0]] 1 = Some (last [- 7 / 25])"
    by simp
  moreover have "cost_fn [[1, 0]] [[4 / 5], [- 3 / 5]] [[1, 0], [0, 0]] 1 = Some (- 31 / 50)"
    by (simp add: cost_fn_def ev)
  ultimately show ?thesis using example_plain_solve by blast
qed

end
